theory Spec2Isabelle
  imports Complex_Main
begin

section \<open>Numeric conventions\<close>

text \<open>
  The C++ sources compute on \<^verbatim>\<open>double\<close> and \<^verbatim>\<open>int\<close>. The value of a \<^verbatim>\<open>double\<close> is a
  \<^typ>\<open>real\<close>. Every function that does arithmetic on doubles takes the rounding \<open>rd\<close> of
  the arithmetic as its first argument: the result of an operation \<open>+\<close>, \<open>-\<close>, \<open>*\<close>, \<open>/\<close> or
  \<^verbatim>\<open>std::sqrt\<close> is \<open>rd\<close> of the exact result, as IEEE 754 prescribes. Comparisons, unary
  minus, \<^verbatim>\<open>std::min\<close>, \<^verbatim>\<open>std::max\<close>, \<^verbatim>\<open>std::round\<close> and the conversion of an \<^verbatim>\<open>int\<close> to a
  \<^verbatim>\<open>double\<close> are exact. Two roundings are used:
  \<^item> \<open>exact\<close>, the identity: no rounding at all, arithmetic on the real numbers;
  \<^item> \<open>binary64\<close>, rounding to the nearest number with a 53-bit significand, ties to the
    even significand: the \<^verbatim>\<open>double\<close> of the usual platforms, in the range where no
    operation overflows or falls into the subnormal numbers. Infinities and NaN are not
    modelled, nor is a compiler that fuses a multiplication with an addition.

  An \<^verbatim>\<open>int\<close> is an \<^typ>\<open>int\<close>; the only integer arithmetic in the modelled functions is on
  loop counters and small sizes. Where a grid coordinate is converted from \<^verbatim>\<open>double\<close> to the
  32-bit \<^verbatim>\<open>int\<close>, the conversion is partial: it has a value only in the range of \<^verbatim>\<open>int\<close>. A waypoint \<^verbatim>\<open>std::array<double, 2>\<close> is a pair. Division
  by zero, which \<^verbatim>\<open>double\<close> answers with NaN or an infinity and HOL with \<open>0\<close>, is kept out
  of every statement below by its hypotheses.
\<close>

type_synonym point = "real \<times> real"

type_synonym rounding = "real \<Rightarrow> real"

abbreviation (input) exact :: rounding where
  "exact \<equiv> (\<lambda>x. x)"

text \<open>The nearest integer, a tie going to the even one.\<close>

definition round_even :: "real \<Rightarrow> int" where
  "round_even y =
     (let f = \<lfloor>y\<rfloor>; d = y - of_int f
      in if d < 1 / 2 then f else if d > 1 / 2 then f + 1 else if even f then f else f + 1)"

text \<open>
  For \<open>x \<noteq> 0\<close> with \<open>2\<^sup>e \<le> \<bar>x\<bar> < 2\<^sup>e\<^sup>+\<^sup>1\<close> the doubles around \<open>x\<close> are the multiples of
  \<open>2\<^sup>e\<^sup>-\<^sup>5\<^sup>2\<close>; \<open>x\<close> goes to the nearest of them.
\<close>

definition binary64 :: rounding where
  "binary64 x =
     (if x = 0 then 0
      else (let e = \<lfloor>log 2 \<bar>x\<bar>\<rfloor>; ulp = 2 powi (e - 52)
            in ulp * of_int (round_even (x / ulp))))"

section \<open>collision\_checker.hpp / collision\_checker.cpp\<close>

text \<open>
  \<^verbatim>\<open>struct StickyZone { int x_min = 5; int x_max = 7; int y_min = 5; int y_max = 7; ... }\<close>
  and \<^verbatim>\<open>struct GridConfig { int width = 10; int height = 10; double cell_size = 1.0; }\<close>.
\<close>

record StickyZone =
  x_min :: int
  x_max :: int
  y_min :: int
  y_max :: int

record GridConfig =
  width :: int
  height :: int
  cell_size :: real

record CollisionChecker =
  grid :: GridConfig
  sticky_zone :: StickyZone

text \<open>The default member initialisers of the two structs.\<close>

definition StickyZone_default :: StickyZone where
  "StickyZone_default = \<lparr>x_min = 5, x_max = 7, y_min = 5, y_max = 7\<rparr>"

definition GridConfig_default :: GridConfig where
  "GridConfig_default = \<lparr>width = 10, height = 10, cell_size = 1\<rparr>"

text \<open>\<^verbatim>\<open>CollisionChecker() = default;\<close>: both members take their defaults.\<close>

definition CollisionChecker_new :: CollisionChecker where
  "CollisionChecker_new = \<lparr>grid = GridConfig_default, sticky_zone = StickyZone_default\<rparr>"

text \<open>\<^verbatim>\<open>StickyZone::contains\<close>: four comparisons of a double with an int.\<close>

definition contains :: "StickyZone \<Rightarrow> real \<Rightarrow> real \<Rightarrow> bool" where
  "contains z x y \<longleftrightarrow>
     x \<ge> of_int (x_min z) \<and> x \<le> of_int (x_max z) \<and> y \<ge> of_int (y_min z) \<and> y \<le> of_int (y_max z)"

definition set_grid_size :: "int \<Rightarrow> int \<Rightarrow> CollisionChecker \<Rightarrow> CollisionChecker" where
  "set_grid_size w h c = c\<lparr>grid := (grid c)\<lparr>width := w, height := h\<rparr>\<rparr>"

definition set_sticky_zone :: "int \<Rightarrow> int \<Rightarrow> int \<Rightarrow> int \<Rightarrow> CollisionChecker \<Rightarrow> CollisionChecker" where
  "set_sticky_zone xmin xmax ymin ymax c =
     c\<lparr>sticky_zone := (sticky_zone c)\<lparr>x_min := xmin, x_max := xmax, y_min := ymin, y_max := ymax\<rparr>\<rparr>"

definition is_in_sticky_zone :: "CollisionChecker \<Rightarrow> real \<Rightarrow> real \<Rightarrow> bool" where
  "is_in_sticky_zone c x y = contains (sticky_zone c) x y"

definition is_in_bounds :: "CollisionChecker \<Rightarrow> real \<Rightarrow> real \<Rightarrow> bool" where
  "is_in_bounds c x y \<longleftrightarrow>
     x \<ge> 0 \<and> x < of_int (width (grid c)) \<and> y \<ge> 0 \<and> y < of_int (height (grid c))"

text \<open>
  \<^verbatim>\<open>to_grid\<close>: \<^verbatim>\<open>static_cast<int>(std::round(coord))\<close>. \<^verbatim>\<open>std::round\<close> rounds to the
  nearest integer, halfway cases away from zero; its result is a \<^verbatim>\<open>double\<close>, here the
  integer it denotes. \<^verbatim>\<open>static_cast<int>\<close> of that \<^verbatim>\<open>double\<close> has a value only when the
  integer fits the 32-bit \<^verbatim>\<open>int\<close>, from \<open>-2\<^sup>3\<^sup>1\<close> to \<open>2\<^sup>3\<^sup>1 - 1\<close>; outside that range the
  behaviour of the conversion is undefined in C++, and \<open>to_grid\<close> is \<open>None\<close>. (The
  conversion instruction of x86-64 then gives \<open>-2\<^sup>3\<^sup>1\<close>, whatever the value.) A NaN or an
  infinity, for which the conversion is undefined as well, is not a \<^typ>\<open>real\<close>.
\<close>

definition std_round :: "real \<Rightarrow> int" where
  "std_round x = (if x \<ge> 0 then \<lfloor>x + 1 / 2\<rfloor> else \<lceil>x - 1 / 2\<rceil>)"

definition to_grid :: "real \<Rightarrow> int option" where
  "to_grid coord =
     (let r = std_round coord
      in if - 2147483648 \<le> r \<and> r \<le> 2147483647 then Some r else None)"

text \<open>
  \<^verbatim>\<open>check_path_conflict\<close>. A \<^verbatim>\<open>std::map<std::string, std::array<double, 2>>\<close> that is
  iterated is an association list, visited front to back (the order of the C++ iterator);
  \<^verbatim>\<open>fleet_targets.find(other_id)\<close> is a lookup in a map. The loop returns from inside
  its body at the first conflict. The result is \<open>Some\<close> of the value returned, or \<open>None\<close>
  when a call of \<^verbatim>\<open>to_grid\<close> that the function makes has no defined value. The calls are
  made in the order of the source: both coordinates of the candidate first, then, for
  each entry other than \<open>robot_id\<close>, both coordinates of its position before they are
  compared and, if the position does not match, both coordinates of its target.
\<close>

fun conflict_loop ::
  "string \<Rightarrow> int \<Rightarrow> int \<Rightarrow> (string \<times> point) list \<Rightarrow> (string \<rightharpoonup> point) \<Rightarrow> bool option" where
  "conflict_loop robot_id tx ty [] fleet_targets = Some False"
| "conflict_loop robot_id tx ty ((other_id, pos) # rest) fleet_targets =
     (if other_id = robot_id then conflict_loop robot_id tx ty rest fleet_targets
      else
        (case to_grid (fst pos) of
           None \<Rightarrow> None
         | Some ox \<Rightarrow>
             (case to_grid (snd pos) of
                None \<Rightarrow> None
              | Some oy \<Rightarrow>
                  if ox = tx \<and> oy = ty then Some True
                  else
                    (case fleet_targets other_id of
                       None \<Rightarrow> conflict_loop robot_id tx ty rest fleet_targets
                     | Some tgt \<Rightarrow>
                         (case to_grid (fst tgt) of
                            None \<Rightarrow> None
                          | Some otx \<Rightarrow>
                              (case to_grid (snd tgt) of
                                 None \<Rightarrow> None
                               | Some oty \<Rightarrow>
                                   if otx = tx \<and> oty = ty then Some True
                                   else conflict_loop robot_id tx ty rest fleet_targets))))))"

definition check_path_conflict ::
  "string \<Rightarrow> real \<Rightarrow> real \<Rightarrow> (string \<times> point) list \<Rightarrow> (string \<rightharpoonup> point) \<Rightarrow> bool option" where
  "check_path_conflict robot_id target_x target_y fleet_positions fleet_targets =
     (case to_grid target_x of
        None \<Rightarrow> None
      | Some tx \<Rightarrow>
          (case to_grid target_y of
             None \<Rightarrow> None
           | Some ty \<Rightarrow> conflict_loop robot_id tx ty fleet_positions fleet_targets))"


text \<open>\<^verbatim>\<open>CollisionChecker::distance\<close>, the Euclidean distance of two points.\<close>

definition distance :: "rounding \<Rightarrow> real \<Rightarrow> real \<Rightarrow> real \<Rightarrow> real \<Rightarrow> real" where
  "distance rd x1 y1 x2 y2 =
     (let dx = rd (x2 - x1);
          dy = rd (y2 - y1)
      in rd (sqrt (rd (rd (dx * dx) + rd (dy * dy)))))"

section \<open>path\_smoother.cpp\<close>

text \<open>
  A path \<^verbatim>\<open>std::vector<std::array<double, 2>>\<close> is a list of points; \<^verbatim>\<open>push_back\<close> appends at
  the end. Each \<^verbatim>\<open>for\<close> or \<^verbatim>\<open>while\<close> loop is a recursive function of the loop variables,
  with the loop condition as its test. An index of type \<^verbatim>\<open>size_t\<close> is a \<^typ>\<open>nat\<close>; every
  \<^verbatim>\<open>size() - 1\<close> below is taken of a non-empty vector. The defining equation of a loop is
  not a rewrite rule of the simplifier; the proofs unfold it one step at a time.
\<close>

subsection \<open>\<^verbatim>\<open>smooth_path\<close>\<close>

text \<open>
  \<^verbatim>\<open>reserve\<close> allocates and leaves the contents of the vector alone; it has no part in the
  model. Its argument is computed from \<open>points_per_segment\<close>, and for a negative value
  that makes the argument wrap around \<^verbatim>\<open>std::vector::reserve\<close> throws: the functions
  below describe \<^verbatim>\<open>smooth_path\<close> for \<open>points_per_segment \<ge> 0\<close>, and every statement about
  it takes \<open>points_per_segment \<ge> 1\<close>, the range the interface documents.

  The loop of the two-waypoint case: \<^verbatim>\<open>for (int i = 0; i <= points_per_segment; ++i)\<close>.
\<close>

function lerp_loop :: "rounding \<Rightarrow> int \<Rightarrow> int \<Rightarrow> point list \<Rightarrow> point list \<Rightarrow> point list" where
  "lerp_loop rd i points_per_segment waypoints result =
     (if i \<le> points_per_segment then
        (let t = rd (of_int i / of_int points_per_segment)
         in lerp_loop rd (i + 1) points_per_segment waypoints
              (result @
                 [(rd (fst (waypoints ! 0) + rd (t * rd (fst (waypoints ! 1) - fst (waypoints ! 0)))),
                   rd (snd (waypoints ! 0) + rd (t * rd (snd (waypoints ! 1) - snd (waypoints ! 0)))))]))
      else result)"
  by pat_completeness auto
termination
  by (relation "measure (\<lambda>(rd, i, points_per_segment, waypoints, result).
        nat (points_per_segment + 1 - i))") auto

declare lerp_loop.simps [simp del]

text \<open>
  The inner loop of the spline: \<^verbatim>\<open>for (int j = 0; j < points_per_segment; ++j)\<close>. Sums and
  differences associate to the left, as the C++ expressions do.
\<close>

function catmull_rom_segment ::
  "rounding \<Rightarrow> int \<Rightarrow> int \<Rightarrow> point \<Rightarrow> point \<Rightarrow> point \<Rightarrow> point \<Rightarrow> point list \<Rightarrow> point list" where
  "catmull_rom_segment rd j points_per_segment p0 p1 p2 p3 result =
     (if j < points_per_segment then
        (let t = rd (of_int j / of_int points_per_segment);
             t2 = rd (t * t);
             t3 = rd (t2 * t);
             b0 = rd (rd (rd (- (1 / 2) * t3) + t2) - rd ((1 / 2) * t));
             b1 = rd (rd (rd ((3 / 2) * t3) - rd ((5 / 2) * t2)) + 1);
             b2 = rd (rd (rd (- (3 / 2) * t3) + rd (2 * t2)) + rd ((1 / 2) * t));
             b3 = rd (rd ((1 / 2) * t3) - rd ((1 / 2) * t2))
         in catmull_rom_segment rd (j + 1) points_per_segment p0 p1 p2 p3
              (result @
                 [(rd (rd (rd (rd (b0 * fst p0) + rd (b1 * fst p1)) + rd (b2 * fst p2)) + rd (b3 * fst p3)),
                   rd (rd (rd (rd (b0 * snd p0) + rd (b1 * snd p1)) + rd (b2 * snd p2)) + rd (b3 * snd p3)))]))
      else result)"
  by pat_completeness auto
termination
  by (relation "measure (\<lambda>(rd, j, points_per_segment, p0, p1, p2, p3, result).
        nat (points_per_segment - j))") auto

declare catmull_rom_segment.simps [simp del]

text \<open>The outer loop: \<^verbatim>\<open>for (size_t i = 0; i < waypoints.size() - 1; ++i)\<close>.\<close>

function catmull_rom_loop :: "rounding \<Rightarrow> nat \<Rightarrow> int \<Rightarrow> point list \<Rightarrow> point list \<Rightarrow> point list" where
  "catmull_rom_loop rd i points_per_segment waypoints result =
     (if i < length waypoints - 1 then
        (let p0 = (if i = 0 then waypoints ! 0 else waypoints ! (i - 1));
             p1 = waypoints ! i;
             p2 = waypoints ! (i + 1);
             p3 = (if i = length waypoints - 2 then waypoints ! (i + 1) else waypoints ! (i + 2))
         in catmull_rom_loop rd (i + 1) points_per_segment waypoints
              (catmull_rom_segment rd 0 points_per_segment p0 p1 p2 p3 result))
      else result)"
  by pat_completeness auto
termination
  by (relation "measure (\<lambda>(rd, i, points_per_segment, waypoints, result). length waypoints - 1 - i)")
    auto

declare catmull_rom_loop.simps [simp del]

definition smooth_path :: "rounding \<Rightarrow> point list \<Rightarrow> int \<Rightarrow> point list" where
  "smooth_path rd waypoints points_per_segment =
     (if length waypoints < 2 then waypoints
      else if length waypoints = 2 then lerp_loop rd 0 points_per_segment waypoints []
      else catmull_rom_loop rd 0 points_per_segment waypoints [] @ [last waypoints])"

subsection \<open>\<^verbatim>\<open>bezier_smooth\<close>\<close>

text \<open>
  The inner loop \<^verbatim>\<open>for (int j = 1; j <= 5; ++j)\<close>; a point equal in both coordinates to the
  last one pushed is skipped.
\<close>

function bezier_segment ::
  "rounding \<Rightarrow> int \<Rightarrow> point \<Rightarrow> point \<Rightarrow> real \<Rightarrow> real \<Rightarrow> point list \<Rightarrow> point list" where
  "bezier_segment rd j prev cur ctrl1_x ctrl1_y result =
     (if j \<le> 5 then
        (let t = rd (of_int j / 5);
             x = rd (rd (rd (rd (rd (1 - t) * rd (1 - t)) * fst prev) +
                         rd (rd (rd (2 * rd (1 - t)) * t) * ctrl1_x)) +
                     rd (rd (t * t) * fst cur));
             y = rd (rd (rd (rd (rd (1 - t) * rd (1 - t)) * snd prev) +
                         rd (rd (rd (2 * rd (1 - t)) * t) * ctrl1_y)) +
                     rd (rd (t * t) * snd cur))
         in bezier_segment rd (j + 1) prev cur ctrl1_x ctrl1_y
              (if result = [] \<or> fst (last result) \<noteq> x \<or> snd (last result) \<noteq> y
               then result @ [(x, y)] else result))
      else result)"
  by pat_completeness auto
termination
  by (relation "measure (\<lambda>(rd, j, prev, cur, ctrl1_x, ctrl1_y, result). nat (6 - j))") auto

declare bezier_segment.simps [simp del]

text \<open>
  The outer loop \<^verbatim>\<open>for (size_t i = 1; i < waypoints.size() - 1; ++i)\<close>. The second control
  point is computed and not used.
\<close>

function bezier_loop :: "rounding \<Rightarrow> nat \<Rightarrow> real \<Rightarrow> point list \<Rightarrow> point list \<Rightarrow> point list" where
  "bezier_loop rd i tension waypoints result =
     (if i < length waypoints - 1 then
        (let prev = waypoints ! (i - 1);
             cur = waypoints ! i;
             nxt = waypoints ! (i + 1);
             ctrl1_x = rd (fst cur - rd (tension * rd (fst cur - fst prev)));
             ctrl1_y = rd (snd cur - rd (tension * rd (snd cur - snd prev)));
             ctrl2_x = rd (fst cur + rd (tension * rd (fst nxt - fst cur)));
             ctrl2_y = rd (snd cur + rd (tension * rd (snd nxt - snd cur)))
         in bezier_loop rd (i + 1) tension waypoints
              (bezier_segment rd 1 prev cur ctrl1_x ctrl1_y result))
      else result)"
  by pat_completeness auto
termination
  by (relation "measure (\<lambda>(rd, i, tension, waypoints, result). length waypoints - 1 - i)") auto

declare bezier_loop.simps [simp del]

definition bezier_smooth :: "rounding \<Rightarrow> point list \<Rightarrow> real \<Rightarrow> point list" where
  "bezier_smooth rd waypoints tension =
     (if length waypoints < 3 then waypoints
      else bezier_loop rd 1 tension waypoints [waypoints ! 0] @ [last waypoints])"

subsection \<open>\<^verbatim>\<open>moving_average_smooth\<close>\<close>

text \<open>
  The window loop \<^verbatim>\<open>for (int j = -half_window; j <= half_window; ++j)\<close> on the running sums
  and the count.
\<close>

function window_loop ::
  "rounding \<Rightarrow> int \<Rightarrow> int \<Rightarrow> nat \<Rightarrow> point list \<Rightarrow> real \<times> real \<times> int \<Rightarrow> real \<times> real \<times> int" where
  "window_loop rd j half_window i waypoints (sum_x, sum_y, count) =
     (if j \<le> half_window then
        (let idx = int i + j
         in window_loop rd (j + 1) half_window i waypoints
              (if idx \<ge> 0 \<and> idx < int (length waypoints)
               then (rd (sum_x + fst (waypoints ! nat idx)), rd (sum_y + snd (waypoints ! nat idx)),
                     count + 1)
               else (sum_x, sum_y, count)))
      else (sum_x, sum_y, count))"
  by pat_completeness auto
termination
  by (relation "measure (\<lambda>(rd, j, half_window, i, waypoints, acc). nat (half_window + 1 - j))") auto

declare window_loop.simps [simp del]

text \<open>The loop over the waypoints: \<^verbatim>\<open>for (size_t i = 0; i < waypoints.size(); ++i)\<close>.\<close>

function average_loop :: "rounding \<Rightarrow> nat \<Rightarrow> int \<Rightarrow> point list \<Rightarrow> point list \<Rightarrow> point list" where
  "average_loop rd i half_window waypoints result =
     (if i < length waypoints then
        (let (sum_x, sum_y, count) = window_loop rd (- half_window) half_window i waypoints (0, 0, 0)
         in average_loop rd (i + 1) half_window waypoints
              (result @ [(rd (sum_x / of_int count), rd (sum_y / of_int count))]))
      else result)"
  by pat_completeness auto
termination
  by (relation "measure (\<lambda>(rd, i, half_window, waypoints, result). length waypoints - i)") auto

declare average_loop.simps [simp del]

text \<open>
  \<^verbatim>\<open>window_size / 2\<close> is taken only for \<open>window_size \<ge> 2\<close>, where the truncating division
  of C++ is \<open>div\<close>. The two assignments at the end overwrite the first and the last element.
\<close>

definition moving_average_smooth :: "rounding \<Rightarrow> point list \<Rightarrow> int \<Rightarrow> point list" where
  "moving_average_smooth rd waypoints window_size =
     (if length waypoints < 3 \<or> window_size < 2 then waypoints
      else
        (let half_window = window_size div 2;
             result = average_loop rd 0 half_window waypoints [];
             result = result[0 := waypoints ! 0];
             result = result[length result - 1 := last waypoints]
         in result))"

subsection \<open>\<^verbatim>\<open>path_length\<close> and \<^verbatim>\<open>resample_path\<close>\<close>










subsection \<open>\<^verbatim>\<open>is_sharp_turn\<close>\<close>

text \<open>
  The literal \<^verbatim>\<open>1e-9\<close> is the double nearest to \<open>1 / 10\<^sup>9\<close>. \<^verbatim>\<open>std::acos\<close> is \<^const>\<open>arccos\<close>,
  taken to be rounded like the arithmetic.
\<close>

definition is_sharp_turn :: "rounding \<Rightarrow> point \<Rightarrow> point \<Rightarrow> point \<Rightarrow> real \<Rightarrow> bool" where
  "is_sharp_turn rd p1 p2 p3 threshold =
     (let v1x = rd (fst p2 - fst p1);
          v1y = rd (snd p2 - snd p1);
          v2x = rd (fst p3 - fst p2);
          v2y = rd (snd p3 - snd p2);
          len1 = rd (sqrt (rd (rd (v1x * v1x) + rd (v1y * v1y))));
          len2 = rd (sqrt (rd (rd (v2x * v2x) + rd (v2y * v2y))))
      in if len1 < rd (1 / 10 ^ 9) \<or> len2 < rd (1 / 10 ^ 9) then False
         else
           (let u1x = rd (v1x / len1);
                u1y = rd (v1y / len1);
                u2x = rd (v2x / len2);
                u2y = rd (v2y / len2);
                dot = rd (rd (u1x * u2x) + rd (u1y * u2y));
                dot = max (- 1) (min 1 dot);
                angle = rd (arccos dot)
            in angle > threshold))"

subsection \<open>A notion for the proofs\<close>

text \<open>The length of the straight segment between two waypoints, in exact arithmetic.\<close>

definition euclid :: "point \<Rightarrow> point \<Rightarrow> real" where
  "euclid p q = distance exact (fst p) (snd p) (fst q) (snd q)"

section \<open>robot\_hal.hpp / robot\_hal.cpp\<close>

datatype FaultState = NONE | MOTOR_TIMEOUT | PACKET_DROP | SENSOR_FREEZE

datatype RobotStatus = IDLE | NAVIGATING | STUCK | RECOVERING | FAULT

text \<open>
  The members of \<^verbatim>\<open>class RobotHAL\<close> (the C++ names end in an underscore). The atomics are
  plain fields: the model is sequential, one member function at a time. \<open>rng\<close> is the state
  of the random engine, of any type \<open>'g\<close>. \<open>cmd_vel_pub\<close> says that the publisher pointer
  of the ROS 2 build is not null; the standalone build has no such member and never
  reads the field.
\<close>

record 'g RobotHAL =
  robot_id :: string
  pose_x :: real
  pose_y :: real
  yaw :: real
  target_x :: real
  target_y :: real
  status :: RobotStatus
  fault_state :: FaultState
  connected :: bool
  rng :: 'g
  cmd_vel_pub :: bool

text \<open>
  What a member function sends out: a message handed to the ROS 2 publisher, or a line
  written to \<^verbatim>\<open>std::cout\<close>. Each function returns the list of its outputs, in order,
  next to the new state.
\<close>

datatype emitted =
    Publish_twist real real
  | Log_cmd_vel string real real
  | Log_motor_timeout
  | Log_packet_dropped
  | Log_injecting string string
  | Log_unknown_fault string
  | Log_clearing string

text \<open>
  The constructor: the member initialisers, then \<^verbatim>\<open>connected_.store(true)\<close> in either build
  (\<^verbatim>\<open>init_ros\<close> creates the publisher first). \<open>has_ros2\<close> is the compile-time switch
  \<^verbatim>\<open>HAS_ROS2\<close>, \<open>g\<close> the seeded engine. The lines the constructor prints are left out.
\<close>

definition RobotHAL_new :: "bool \<Rightarrow> string \<Rightarrow> 'g \<Rightarrow> 'g RobotHAL" where
  "RobotHAL_new has_ros2 rid g =
     \<lparr>robot_id = rid, pose_x = 0, pose_y = 0, yaw = 0, target_x = 0, target_y = 0,
      status = IDLE, fault_state = NONE, connected = True, rng = g, cmd_vel_pub = has_ros2\<rparr>"

text \<open>
  \<^verbatim>\<open>publish_cmd_vel\<close>. \<open>drop_dist\<close> is \<^verbatim>\<open>drop_dist_(rng_)\<close>: it draws a number from the engine
  and returns it with the advanced engine.
\<close>

definition publish_cmd_vel ::
  "bool \<Rightarrow> ('g \<Rightarrow> real \<times> 'g) \<Rightarrow> real \<Rightarrow> real \<Rightarrow> 'g RobotHAL \<Rightarrow> bool \<times> 'g RobotHAL \<times> emitted list" where
  "publish_cmd_vel has_ros2 drop_dist linear_x angular_z h =
     (let fault = fault_state h in
      if fault = MOTOR_TIMEOUT then (False, h, [Log_motor_timeout])
      else
        (let (dropped, h1) =
               (if fault = PACKET_DROP
                then (let (u, g) = drop_dist (rng h) in (u < 1 / 2, h\<lparr>rng := g\<rparr>))
                else (False, h))
         in if dropped then (False, h1, [Log_packet_dropped])
            else if has_ros2 then
              (if \<not> cmd_vel_pub h1 then (False, h1, [])
               else (True, h1, [Publish_twist linear_x angular_z]))
            else (True, h1, [Log_cmd_vel (robot_id h1) linear_x angular_z])))"

text \<open>\<^verbatim>\<open>void RobotHAL::stop() { publish_cmd_vel(0.0, 0.0); }\<close>: the result is dropped.\<close>

definition stop :: "bool \<Rightarrow> ('g \<Rightarrow> real \<times> 'g) \<Rightarrow> 'g RobotHAL \<Rightarrow> 'g RobotHAL \<times> emitted list" where
  "stop has_ros2 drop_dist h = snd (publish_cmd_vel has_ros2 drop_dist 0 0 h)"

definition set_status :: "RobotStatus \<Rightarrow> 'g RobotHAL \<Rightarrow> 'g RobotHAL" where
  "set_status st h = h\<lparr>status := st\<rparr>"

definition get_fault_state :: "'g RobotHAL \<Rightarrow> FaultState" where
  "get_fault_state h = fault_state h"

definition has_fault :: "'g RobotHAL \<Rightarrow> bool" where
  "has_fault h \<longleftrightarrow> fault_state h \<noteq> NONE"

text \<open>\<^verbatim>\<open>inject_fault\<close>: \<^verbatim>\<open>==\<close> on \<^verbatim>\<open>std::string\<close> is equality of the character sequences.\<close>

definition inject_fault :: "string \<Rightarrow> 'g RobotHAL \<Rightarrow> 'g RobotHAL \<times> emitted list" where
  "inject_fault fault_type h =
     (if fault_type = ''motor_timeout'' \<or> fault_type = ''MOTOR_TIMEOUT'' then
        (h\<lparr>fault_state := MOTOR_TIMEOUT, status := FAULT\<rparr>, [Log_injecting fault_type (robot_id h)])
      else if fault_type = ''packet_drop'' \<or> fault_type = ''PACKET_DROP'' then
        (h\<lparr>fault_state := PACKET_DROP\<rparr>, [Log_injecting fault_type (robot_id h)])
      else if fault_type = ''sensor_freeze'' \<or> fault_type = ''SENSOR_FREEZE'' then
        (h\<lparr>fault_state := SENSOR_FREEZE\<rparr>, [Log_injecting fault_type (robot_id h)])
      else (h, [Log_injecting fault_type (robot_id h), Log_unknown_fault fault_type]))"

definition clear_faults :: "'g RobotHAL \<Rightarrow> 'g RobotHAL \<times> emitted list" where
  "clear_faults h =
     (let h1 = h\<lparr>fault_state := NONE\<rparr>
      in (if status h1 = FAULT then h1\<lparr>status := IDLE\<rparr> else h1, [Log_clearing (robot_id h)]))"

text \<open>
  A caller that issues one \<^verbatim>\<open>publish_cmd_vel\<close> per command of a list, in order, and collects
  the return values and the outputs.
\<close>

fun publish_each ::
  "bool \<Rightarrow> ('g \<Rightarrow> real \<times> 'g) \<Rightarrow> (real \<times> real) list \<Rightarrow> 'g RobotHAL \<Rightarrow> bool list \<times> 'g RobotHAL \<times> emitted list" where
  "publish_each has_ros2 drop_dist [] h = ([], h, [])"
| "publish_each has_ros2 drop_dist ((linear_x, angular_z) # cmds) h =
     (let (r, h1, out1) = publish_cmd_vel has_ros2 drop_dist linear_x angular_z h;
          (rs, h2, out2) = publish_each has_ros2 drop_dist cmds h1
      in (r # rs, h2, out1 @ out2))"

text \<open>
  The reading of the fault identifiers as case-insensitive text: two strings are the same
  when they agree after every ASCII capital letter is replaced by its small letter.
\<close>

definition ascii_tolower :: "char \<Rightarrow> char" where
  "ascii_tolower c =
     (let n = (of_char c :: nat) in if 65 \<le> n \<and> n \<le> 90 then char_of (n + 32) else c)"

definition equals_ignoring_case :: "string \<Rightarrow> string \<Rightarrow> bool" where
  "equals_ignoring_case s t \<longleftrightarrow> map ascii_tolower s = map ascii_tolower t"

section \<open>Properties of the rounding \<open>binary64\<close>\<close>

text \<open>
  \<open>binary64\<close> is computed from the binade of its argument: for \<open>2\<^sup>e \<le> \<bar>x\<bar> < 2\<^sup>e\<^sup>+\<^sup>1\<close> it is
  the multiple of \<open>2\<^sup>e\<^sup>-\<^sup>5\<^sup>2\<close> nearest to \<open>x\<close>. It keeps the sign of its argument, and it
  leaves the small integers and halves used below as they are.
\<close>

lemma round_even_eqI:
  assumes "of_int m - 1 / 2 < y" "y < of_int m + 1 / 2"
  shows "round_even y = m"
proof -
  have "\<lfloor>y\<rfloor> = m \<or> \<lfloor>y\<rfloor> = m - 1"
    using assms by linarith
  then show ?thesis
  proof
    assume f: "\<lfloor>y\<rfloor> = m"
    then have "y - of_int \<lfloor>y\<rfloor> < 1 / 2"
      using assms by simp
    with f show ?thesis
      by (simp add: round_even_def Let_def)
  next
    assume f: "\<lfloor>y\<rfloor> = m - 1"
    then have "y - of_int \<lfloor>y\<rfloor> > 1 / 2"
      using assms by simp
    with f show ?thesis
      by (simp add: round_even_def Let_def)
  qed
qed

lemma round_even_of_int [simp]: "round_even (of_int m) = m"
  by (rule round_even_eqI) simp_all

lemma round_even_ge:
  assumes "of_int m \<le> y"
  shows "m \<le> round_even y"
proof -
  have "m \<le> \<lfloor>y\<rfloor>"
    using assms by linarith
  then show ?thesis
    by (auto simp: round_even_def Let_def)
qed

lemma floor_log2_eq:
  assumes "2 powi e \<le> x" "x < 2 powi (e + 1)"
  shows "\<lfloor>log 2 x\<rfloor> = e"
proof -
  have "(0::real) < 2 powi e"
    by simp
  with assms(1) have pos: "0 < x"
    by linarith
  have "(2::real) powr of_int e = 2 powi e" "(2::real) powr (of_int e + 1) = 2 powi (e + 1)"
    using powr_real_of_int' [of 2 e] powr_real_of_int' [of 2 "e + 1"] by simp_all
  then show ?thesis
    using assms pos by (simp add: floor_log_eq_powr_iff)
qed

lemma binary64_eval:
  assumes "2 powi e \<le> \<bar>x\<bar>" "\<bar>x\<bar> < 2 powi (e + 1)"
  shows "binary64 x = 2 powi (e - 52) * of_int (round_even (x / 2 powi (e - 52)))"
proof -
  have "(0::real) < 2 powi e"
    by simp
  with assms(1) have "0 < \<bar>x\<bar>"
    by linarith
  then show ?thesis
    using floor_log2_eq [OF assms] by (simp add: binary64_def Let_def)
qed

lemma binary64_zero [simp]: "binary64 0 = 0"
  by (simp add: binary64_def)

lemma binary64_pos:
  assumes "0 < x"
  shows "0 < binary64 x"
proof -
  define e where "e = \<lfloor>log 2 \<bar>x\<bar>\<rfloor>"
  have "(2::real) powr of_int e = 2 powi e"
    using powr_real_of_int' [of 2 e] by simp
  moreover have "2 powr of_int e \<le> \<bar>x\<bar>"
    using assms floor_log_eq_powr_iff [of "\<bar>x\<bar>" 2 e] by (simp add: e_def)
  ultimately have le: "2 powi e \<le> x"
    using assms by simp
  have ulp: "(0::real) < 2 powi (e - 52)"
    by simp
  have "(2::real) powi e = 2 powi (e - 52) * 4503599627370496"
    using power_int_add [of "2::real" "e - 52" 52] by simp
  then have "1 * 2 powi (e - 52) \<le> x"
    using le ulp by linarith
  then have "(1::real) \<le> x / 2 powi (e - 52)"
    using ulp by (simp only: pos_le_divide_eq)
  then have "1 \<le> round_even (x / 2 powi (e - 52))"
    using round_even_ge [of 1 "x / 2 powi (e - 52)"] by simp
  then have "0 < 2 powi (e - 52) * real_of_int (round_even (x / 2 powi (e - 52)))"
    using ulp by simp
  then show ?thesis
    using assms by (simp add: binary64_def Let_def e_def)
qed





lemma binary64_one [simp]: "binary64 1 = 1"
  by (subst binary64_eval [where e = 0]) (simp_all add: power_int_minus round_even_def)

lemma binary64_minus_one [simp]: "binary64 (- 1) = - 1"
  by (subst binary64_eval [where e = 0]) (simp_all add: power_int_minus round_even_def)

lemma binary64_two [simp]: "binary64 2 = 2"
  by (subst binary64_eval [where e = 1]) (simp_all add: power_int_minus round_even_def)

lemma binary64_3_2 [simp]: "binary64 (3 / 2) = 3 / 2"
  by (subst binary64_eval [where e = 0]) (simp_all add: power_int_minus round_even_def)

lemma binary64_1_2 [simp]: "binary64 (1 / 2) = 1 / 2"
  by (subst binary64_eval [where e = "- 1"]) (simp_all add: power_int_minus round_even_def)

lemma binary64_1_4 [simp]: "binary64 (1 / 4) = 1 / 4"
  by (subst binary64_eval [where e = "- 2"]) (simp_all add: power_int_minus round_even_def)

lemma binary64_minus_three [simp]: "binary64 (- 3) = - 3"
  by (subst binary64_eval [where e = 1]) (simp_all add: power_int_minus round_even_def)


lemma binary64_sqrt_2: "binary64 (sqrt 2) = 6369051672525773 / 4503599627370496"
proof -
  have lo: "6369051672525773 - 1 / 2 < sqrt 2 * 4503599627370496"
  proof -
    have "((6369051672525773 - 1 / 2) / 4503599627370496)\<^sup>2 < (2::real)"
      by (simp add: power2_eq_square)
    then have "(6369051672525773 - 1 / 2) / 4503599627370496 < sqrt 2"
      by (rule real_less_rsqrt)
    then show ?thesis
      by simp
  qed
  have hi: "sqrt 2 * 4503599627370496 < 6369051672525773 + 1 / 2"
  proof -
    have "(2::real) < ((6369051672525773 + 1 / 2) / 4503599627370496)\<^sup>2"
      by (simp add: power2_eq_square)
    then have "sqrt 2 < (6369051672525773 + 1 / 2) / 4503599627370496"
      by (intro real_less_lsqrt) simp_all
    then show ?thesis
      by simp
  qed
  have r: "round_even (sqrt 2 * 4503599627370496) = 6369051672525773"
    using lo hi by (intro round_even_eqI) simp_all
  have b: "1 \<le> sqrt 2" "sqrt 2 < 2"
    by (simp_all add: real_less_lsqrt)
  show ?thesis
    using b by (subst binary64_eval [where e = 0]) (simp_all add: power_int_minus r)
qed

section \<open>Properties of the collision checker\<close>

text \<open>
  C10. A default-constructed \<^verbatim>\<open>CollisionChecker\<close>, before any configuration call, has the
  sticky zone \<open>(5, 7, 5, 7)\<close> and a \<open>10 \<times> 10\<close> grid of cell size \<open>1.0\<close>; on it
  \<^verbatim>\<open>is_in_sticky_zone(6.0, 6.0)\<close> is true and \<^verbatim>\<open>is_in_bounds(10.0, 0.0)\<close> is false.
\<close>

theorem default_checker_configuration:
  "x_min (sticky_zone CollisionChecker_new) = 5 \<and>
   x_max (sticky_zone CollisionChecker_new) = 7 \<and>
   y_min (sticky_zone CollisionChecker_new) = 5 \<and>
   y_max (sticky_zone CollisionChecker_new) = 7 \<and>
   width (grid CollisionChecker_new) = 10 \<and>
   height (grid CollisionChecker_new) = 10 \<and>
   cell_size (grid CollisionChecker_new) = 1 \<and>
   is_in_sticky_zone CollisionChecker_new 6 6 \<and>
   \<not> is_in_bounds CollisionChecker_new 10 0"
  by (simp add: CollisionChecker_new_def StickyZone_default_def GridConfig_default_def
      is_in_sticky_zone_def contains_def is_in_bounds_def)

subsection \<open>Fleet conflict detection\<close>

text \<open>Where \<open>to_grid\<close> has a value, it is the rounded coordinate.\<close>

lemma to_grid_Some:
  "to_grid v \<noteq> None \<Longrightarrow> to_grid v = Some (std_round v)"
  by (simp add: to_grid_def Let_def split: if_splits)

lemma to_grid_range:
  "to_grid v \<noteq> None \<longleftrightarrow> - 2147483648 \<le> std_round v \<and> std_round v \<le> 2147483647"
  by (simp add: to_grid_def Let_def)

text \<open>
  One iteration of the loop, for an entry whose conversions are defined: the head of the
  list either decides, or the loop goes on.
\<close>

lemma conflict_loop_Cons:
  assumes "fst p \<noteq> self_id \<longrightarrow>
             to_grid (fst (snd p)) \<noteq> None \<and> to_grid (snd (snd p)) \<noteq> None \<and>
             (\<forall>tgt. ts (fst p) = Some tgt \<longrightarrow>
                to_grid (fst tgt) \<noteq> None \<and> to_grid (snd tgt) \<noteq> None)"
  shows "conflict_loop self_id tx ty (p # rest) ts =
           (if fst p \<noteq> self_id \<and>
               (std_round (fst (snd p)) = tx \<and> std_round (snd (snd p)) = ty \<or>
                (\<exists>tgt. ts (fst p) = Some tgt \<and>
                   std_round (fst tgt) = tx \<and> std_round (snd tgt) = ty))
            then Some True
            else conflict_loop self_id tx ty rest ts)"
proof -
  obtain other_id pos where Pair: "p = (other_id, pos)"
    by (rule prod.exhaust)
  show ?thesis
  proof (cases "other_id = self_id")
    case True
    with Pair show ?thesis by simp
  next
    case False
    with assms Pair have pos: "to_grid (fst pos) = Some (std_round (fst pos))"
      "to_grid (snd pos) = Some (std_round (snd pos))"
      by (simp_all add: to_grid_Some)
    show ?thesis
    proof (cases "ts other_id")
      case None
      with Pair False pos show ?thesis by simp
    next
      case (Some tgt)
      with assms Pair False have tgt: "to_grid (fst tgt) = Some (std_round (fst tgt))"
        "to_grid (snd tgt) = Some (std_round (snd tgt))"
        by (simp_all add: to_grid_Some)
      with Pair False pos Some show ?thesis by simp
    qed
  qed
qed

lemma conflict_loop_iff:
  assumes "\<forall>p \<in> set ps. fst p \<noteq> self_id \<longrightarrow>
             to_grid (fst (snd p)) \<noteq> None \<and> to_grid (snd (snd p)) \<noteq> None \<and>
             (\<forall>tgt. ts (fst p) = Some tgt \<longrightarrow>
                to_grid (fst tgt) \<noteq> None \<and> to_grid (snd tgt) \<noteq> None)"
  shows "conflict_loop self_id tx ty ps ts =
           Some (\<exists>p \<in> set ps. fst p \<noteq> self_id \<and>
                   (std_round (fst (snd p)) = tx \<and> std_round (snd (snd p)) = ty \<or>
                    (\<exists>tgt. ts (fst p) = Some tgt \<and>
                       std_round (fst tgt) = tx \<and> std_round (snd tgt) = ty)))"
  using assms
proof (induction ps)
  case Nil
  show ?case by simp
next
  case (Cons p rest)
  from Cons.prems have head: "fst p \<noteq> self_id \<longrightarrow>
             to_grid (fst (snd p)) \<noteq> None \<and> to_grid (snd (snd p)) \<noteq> None \<and>
             (\<forall>tgt. ts (fst p) = Some tgt \<longrightarrow>
                to_grid (fst tgt) \<noteq> None \<and> to_grid (snd tgt) \<noteq> None)"
    by simp
  from Cons.prems have tail: "\<forall>p \<in> set rest. fst p \<noteq> self_id \<longrightarrow>
             to_grid (fst (snd p)) \<noteq> None \<and> to_grid (snd (snd p)) \<noteq> None \<and>
             (\<forall>tgt. ts (fst p) = Some tgt \<longrightarrow>
                to_grid (fst tgt) \<noteq> None \<and> to_grid (snd tgt) \<noteq> None)"
    by simp
  have step: "conflict_loop self_id tx ty (p # rest) ts =
           (if fst p \<noteq> self_id \<and>
               (std_round (fst (snd p)) = tx \<and> std_round (snd (snd p)) = ty \<or>
                (\<exists>tgt. ts (fst p) = Some tgt \<and>
                   std_round (fst tgt) = tx \<and> std_round (snd tgt) = ty))
            then Some True
            else conflict_loop self_id tx ty rest ts)"
    using head by (rule conflict_loop_Cons)
  show ?case
    unfolding step Cons.IH [OF tail]
    by (auto simp del: split_paired_Ex split_paired_All)
qed

lemma check_path_conflict_in_range:
  assumes "to_grid cand_x \<noteq> None" "to_grid cand_y \<noteq> None"
      and "\<forall>(other_id, pos) \<in> set positions. other_id \<noteq> self \<longrightarrow>
             to_grid (fst pos) \<noteq> None \<and> to_grid (snd pos) \<noteq> None \<and>
             (\<forall>tgt. targets other_id = Some tgt \<longrightarrow>
                to_grid (fst tgt) \<noteq> None \<and> to_grid (snd tgt) \<noteq> None)"
  shows "check_path_conflict self cand_x cand_y positions targets =
           Some (\<exists>(other_id, pos) \<in> set positions. other_id \<noteq> self \<and>
                   ((std_round (fst pos), std_round (snd pos)) = (std_round cand_x, std_round cand_y) \<or>
                    (\<exists>tgt. targets other_id = Some tgt \<and>
                       (std_round (fst tgt), std_round (snd tgt)) =
                       (std_round cand_x, std_round cand_y))))"
proof -
  from assms(3) have "\<forall>p \<in> set positions. fst p \<noteq> self \<longrightarrow>
             to_grid (fst (snd p)) \<noteq> None \<and> to_grid (snd (snd p)) \<noteq> None \<and>
             (\<forall>tgt. targets (fst p) = Some tgt \<longrightarrow>
                to_grid (fst tgt) \<noteq> None \<and> to_grid (snd tgt) \<noteq> None)"
    by (simp add: case_prod_beta)
  from conflict_loop_iff [OF this] to_grid_Some [OF assms(1)] to_grid_Some [OF assms(2)]
  show ?thesis
    by (simp add: check_path_conflict_def case_prod_beta)
qed

text \<open>
  C1, as the code has it. Let the candidate target and, for every robot id of
  \<open>positions\<close> other than \<open>self\<close>, its position and its entry in \<open>targets\<close> (if it has one)
  have coordinates whose rounded value fits a 32-bit \<^verbatim>\<open>int\<close>, so that every \<^verbatim>\<open>to_grid\<close>
  which the function calls has a value. Then \<^verbatim>\<open>check_path_conflict\<close> returns, and it
  returns true exactly when some robot id of \<open>positions\<close> other than \<open>self\<close> has its
  position in the same rounded cell as the candidate target, or has an entry in
  \<open>targets\<close> in that cell; the result depends only on the set of entries, not on the
  order in which they are visited. \<^verbatim>\<open>to_grid\<close> has a value exactly when the rounded
  coordinate lies between \<open>-2147483648\<close> and \<open>2147483647\<close>, and the value is that rounded
  coordinate; rounding takes ties away from zero. With positions
  \<open>{A: (2.4, 2.6), B: (2.0, 3.0)}\<close>, no targets and self \<open>A\<close>, the candidate \<open>(2.0, 3.0)\<close>
  conflicts and the candidate \<open>(5.0, 5.0)\<close> does not.
\<close>

theorem check_path_conflict_iff:
  "(to_grid cand_x \<noteq> None \<and> to_grid cand_y \<noteq> None \<and>
    (\<forall>(other_id, pos) \<in> set positions. other_id \<noteq> self \<longrightarrow>
       to_grid (fst pos) \<noteq> None \<and> to_grid (snd pos) \<noteq> None \<and>
       (\<forall>tgt. targets other_id = Some tgt \<longrightarrow>
          to_grid (fst tgt) \<noteq> None \<and> to_grid (snd tgt) \<noteq> None)) \<longrightarrow>
    check_path_conflict self cand_x cand_y positions targets =
      Some (\<exists>(other_id, pos) \<in> set positions. other_id \<noteq> self \<and>
              ((std_round (fst pos), std_round (snd pos)) = (std_round cand_x, std_round cand_y) \<or>
               (\<exists>tgt. targets other_id = Some tgt \<and>
                  (std_round (fst tgt), std_round (snd tgt)) =
                  (std_round cand_x, std_round cand_y)))) \<and>
    (set positions' = set positions \<longrightarrow>
       check_path_conflict self cand_x cand_y positions' targets =
       check_path_conflict self cand_x cand_y positions targets)) \<and>
   (to_grid v \<noteq> None \<longleftrightarrow> - 2147483648 \<le> std_round v \<and> std_round v \<le> 2147483647) \<and>
   (to_grid v \<noteq> None \<longrightarrow> to_grid v = Some (std_round v)) \<and>
   std_round (5 / 2) = 3 \<and> std_round (- (5 / 2)) = - 3 \<and>
   to_grid (5 / 2) = Some 3 \<and> to_grid (- (5 / 2)) = Some (- 3) \<and>
   check_path_conflict ''A'' 2 3 [(''A'', (12 / 5, 13 / 5)), (''B'', (2, 3))] Map.empty = Some True \<and>
   check_path_conflict ''A'' 5 5 [(''A'', (12 / 5, 13 / 5)), (''B'', (2, 3))] Map.empty = Some False"
proof (intro conjI impI)
  assume range: "to_grid cand_x \<noteq> None \<and> to_grid cand_y \<noteq> None \<and>
    (\<forall>(other_id, pos) \<in> set positions. other_id \<noteq> self \<longrightarrow>
       to_grid (fst pos) \<noteq> None \<and> to_grid (snd pos) \<noteq> None \<and>
       (\<forall>tgt. targets other_id = Some tgt \<longrightarrow>
          to_grid (fst tgt) \<noteq> None \<and> to_grid (snd tgt) \<noteq> None))"
  then have cand: "to_grid cand_x \<noteq> None" "to_grid cand_y \<noteq> None"
    and entries: "\<forall>(other_id, pos) \<in> set positions. other_id \<noteq> self \<longrightarrow>
       to_grid (fst pos) \<noteq> None \<and> to_grid (snd pos) \<noteq> None \<and>
       (\<forall>tgt. targets other_id = Some tgt \<longrightarrow>
          to_grid (fst tgt) \<noteq> None \<and> to_grid (snd tgt) \<noteq> None)"
    by blast+
  show "check_path_conflict self cand_x cand_y positions targets =
      Some (\<exists>(other_id, pos) \<in> set positions. other_id \<noteq> self \<and>
              ((std_round (fst pos), std_round (snd pos)) = (std_round cand_x, std_round cand_y) \<or>
               (\<exists>tgt. targets other_id = Some tgt \<and>
                  (std_round (fst tgt), std_round (snd tgt)) =
                  (std_round cand_x, std_round cand_y))))"
    using cand entries by (rule check_path_conflict_in_range)
  show "check_path_conflict self cand_x cand_y positions' targets =
       check_path_conflict self cand_x cand_y positions targets"
    if eq: "set positions' = set positions"
  proof -
    from entries eq
    have entries': "\<forall>(other_id, pos) \<in> set positions'. other_id \<noteq> self \<longrightarrow>
       to_grid (fst pos) \<noteq> None \<and> to_grid (snd pos) \<noteq> None \<and>
       (\<forall>tgt. targets other_id = Some tgt \<longrightarrow>
          to_grid (fst tgt) \<noteq> None \<and> to_grid (snd tgt) \<noteq> None)"
      by simp
    show ?thesis
      unfolding check_path_conflict_in_range [OF cand entries]
        check_path_conflict_in_range [OF cand entries']
      using eq by simp
  qed
next
  show "to_grid v \<noteq> None \<longleftrightarrow> - 2147483648 \<le> std_round v \<and> std_round v \<le> 2147483647"
    by (rule to_grid_range)
  show "to_grid v = Some (std_round v)" if "to_grid v \<noteq> None"
    using that by (rule to_grid_Some)
  show "std_round (5 / 2) = 3" by (simp add: std_round_def)
  show "std_round (- (5 / 2)) = - 3" by (simp add: std_round_def)
  show "to_grid (5 / 2) = Some 3" by (simp add: to_grid_def std_round_def)
  show "to_grid (- (5 / 2)) = Some (- 3)" by (simp add: to_grid_def std_round_def)
  show "check_path_conflict ''A'' 2 3 [(''A'', (12 / 5, 13 / 5)), (''B'', (2, 3))] Map.empty = Some True"
    by (simp add: check_path_conflict_def to_grid_def std_round_def)
  show "check_path_conflict ''A'' 5 5 [(''A'', (12 / 5, 13 / 5)), (''B'', (2, 3))] Map.empty = Some False"
    by (simp add: check_path_conflict_def to_grid_def std_round_def)
qed

theorem check_path_conflict_iff_witness:
  "to_grid 2 \<noteq> None \<and> to_grid 3 \<noteq> None \<and>
   check_path_conflict ''A'' 2 3 [(''B'', (2, 3)), (''A'', (12 / 5, 13 / 5))] [''C'' \<mapsto> (2, 3)] = Some True \<and>
   check_path_conflict ''A'' 2 3 [(''A'', (5000000000, 3)), (''B'', (7, 7))] [''A'' \<mapsto> (2, 3)] = Some False \<and>
   check_path_conflict ''A'' 2 3 [(''A'', (12 / 5, 13 / 5)), (''B'', (2, 3))] [''C'' \<mapsto> (2, 3)] =
   check_path_conflict ''A'' 2 3 [(''B'', (2, 3)), (''A'', (12 / 5, 13 / 5))] [''C'' \<mapsto> (2, 3)]"
proof -
  have g: "to_grid 2 = Some 2" "to_grid 3 = Some 3" "to_grid 7 = Some 7"
    "to_grid (12 / 5) = Some 2" "to_grid (13 / 5) = Some 3"
    by (simp_all add: to_grid_def std_round_def)
  have r: "std_round 2 = 2" "std_round 3 = 3" "std_round 7 = 7"
    "std_round (12 / 5) = 2" "std_round (13 / 5) = 3"
    by (simp_all add: std_round_def)
  from check_path_conflict_iff
    [THEN conjunct1, of 2 3 "[(''B'', (2, 3)), (''A'', (12 / 5, 13 / 5))]" "''A''" "[''C'' \<mapsto> (2, 3)]"
      "[(''A'', (12 / 5, 13 / 5)), (''B'', (2, 3))]"]
  have one: "check_path_conflict ''A'' 2 3 [(''B'', (2, 3)), (''A'', (12 / 5, 13 / 5))] [''C'' \<mapsto> (2, 3)] = Some True"
    and order: "check_path_conflict ''A'' 2 3 [(''A'', (12 / 5, 13 / 5)), (''B'', (2, 3))] [''C'' \<mapsto> (2, 3)] =
      check_path_conflict ''A'' 2 3 [(''B'', (2, 3)), (''A'', (12 / 5, 13 / 5))] [''C'' \<mapsto> (2, 3)]"
    by (auto simp: g r)
  from check_path_conflict_iff
    [THEN conjunct1, of 2 3 "[(''A'', (5000000000, 3)), (''B'', (7, 7))]" "''A''" "[''A'' \<mapsto> (2, 3)]"]
  have two: "check_path_conflict ''A'' 2 3 [(''A'', (5000000000, 3)), (''B'', (7, 7))] [''A'' \<mapsto> (2, 3)] = Some False"
    by (simp add: g r)
  from one two order g show ?thesis
    by simp
qed

text \<open>
  Against C1 as the specification states it, for every candidate target and snapshot. The
  candidate \<open>(5000000000, 0)\<close> and the position \<open>(3000000000, 0)\<close> of the only other robot
  round to themselves, so the two are in different rounded cells and the stated
  equivalence asks for the result false. Neither \<open>5000000000\<close> nor \<open>3000000000\<close> fits a
  32-bit \<^verbatim>\<open>int\<close>: the conversions in \<^verbatim>\<open>to_grid\<close> are undefined and the call has no defined
  result.
\<close>

theorem check_path_conflict_beyond_int_range:
  "std_round 5000000000 = 5000000000 \<and> std_round 3000000000 = 3000000000 \<and>
   to_grid 5000000000 = None \<and> to_grid 3000000000 = None \<and>
   check_path_conflict ''A'' 5000000000 0 [(''B'', (3000000000, 0))] Map.empty = None \<and>
   check_path_conflict ''A'' 5000000000 0 [(''B'', (3000000000, 0))] Map.empty \<noteq> Some False"
  by (simp add: check_path_conflict_def to_grid_def std_round_def)

subsection \<open>Sticky zone containment\<close>

text \<open>
  C4. For a zone with \<open>x_min \<le> x_max\<close> and \<open>y_min \<le> y_max\<close>, \<^verbatim>\<open>is_in_sticky_zone(x, y)\<close>
  is true exactly when \<open>x_min \<le> x \<le> x_max\<close> and \<open>y_min \<le> y \<le> y_max\<close>, all four edges
  included; for a zone with \<open>x_min > x_max\<close> or \<open>y_min > y_max\<close> it is false at every point.
\<close>

theorem sticky_zone_containment:
  "(xmin \<le> xmax \<and> ymin \<le> ymax \<longrightarrow>
      (is_in_sticky_zone (set_sticky_zone xmin xmax ymin ymax c) x y \<longleftrightarrow>
         of_int xmin \<le> x \<and> x \<le> of_int xmax \<and> of_int ymin \<le> y \<and> y \<le> of_int ymax)) \<and>
   (xmin > xmax \<or> ymin > ymax \<longrightarrow>
      \<not> is_in_sticky_zone (set_sticky_zone xmin xmax ymin ymax c) x y)"
  by (auto simp: is_in_sticky_zone_def set_sticky_zone_def contains_def)

theorem sticky_zone_containment_witness:
  "is_in_sticky_zone (set_sticky_zone 5 7 5 7 CollisionChecker_new) 5 7 \<and>
   \<not> is_in_sticky_zone (set_sticky_zone 5 7 5 7 CollisionChecker_new) (71 / 10) 6 \<and>
   \<not> is_in_sticky_zone (set_sticky_zone 7 5 5 7 CollisionChecker_new) 6 6 \<and>
   \<not> is_in_sticky_zone (set_sticky_zone 5 7 7 5 CollisionChecker_new) 6 6"
  using sticky_zone_containment [of 5 7 5 7 CollisionChecker_new 5 7]
    sticky_zone_containment [of 5 7 5 7 CollisionChecker_new "71 / 10" 6]
    sticky_zone_containment [of 7 5 5 7 CollisionChecker_new 6 6]
    sticky_zone_containment [of 5 7 7 5 CollisionChecker_new 6 6]
  by simp

subsection \<open>Signed distance to the sticky zone\<close>











section \<open>Properties of the path smoother\<close>

subsection \<open>What the loops append\<close>

text \<open>
  Each loop leaves what is already in \<open>result\<close> in place and appends to it; the number
  of points appended by the interpolation loops is fixed by the loop bounds. None of
  this depends on the rounding.
\<close>

lemma lerp_loop_map:
  "lerp_loop rd i pps ws r =
     r @ map (\<lambda>k. (rd (fst (ws ! 0) + rd (rd (of_int k / of_int pps) * rd (fst (ws ! 1) - fst (ws ! 0)))),
                    rd (snd (ws ! 0) + rd (rd (of_int k / of_int pps) * rd (snd (ws ! 1) - snd (ws ! 0))))))
           [i..pps]"
proof (induction "nat (pps + 1 - i)" arbitrary: i r)
  case 0
  then have "\<not> i \<le> pps"
    by linarith
  then show ?case
    by (subst lerp_loop.simps) simp
next
  case (Suc n)
  then have le: "i \<le> pps" and n: "n = nat (pps + 1 - (i + 1))"
    by linarith+
  show ?case
    using le by (subst lerp_loop.simps) (simp add: Let_def Suc.hyps(1) [OF n] upto_rec1 [of i pps])
qed

lemma catmull_rom_segment_length:
  "length (catmull_rom_segment rd j pps p0 p1 p2 p3 r) = length r + nat (pps - j)"
proof (induction "nat (pps - j)" arbitrary: j r)
  case 0
  then have "\<not> j < pps"
    by linarith
  then show ?case
    by (subst catmull_rom_segment.simps) simp
next
  case (Suc n)
  then have lt: "j < pps" and n: "n = nat (pps - (j + 1))"
    by linarith+
  have "length (catmull_rom_segment rd (j + 1) pps p0 p1 p2 p3 (r @ [q])) = length r + nat (pps - j)" for q
    using Suc.hyps(1) [OF n, of "r @ [q]"] lt by simp
  then show ?case
    using lt by (subst catmull_rom_segment.simps) (simp add: Let_def)
qed

lemma catmull_rom_segment_prefix:
  "\<exists>ys. catmull_rom_segment rd j pps p0 p1 p2 p3 r = r @ ys"
proof (induction "nat (pps - j)" arbitrary: j r)
  case 0
  then have "\<not> j < pps"
    by linarith
  then show ?case
    by (subst catmull_rom_segment.simps) simp
next
  case (Suc n)
  then have lt: "j < pps" and n: "n = nat (pps - (j + 1))"
    by linarith+
  have "\<exists>ys. catmull_rom_segment rd (j + 1) pps p0 p1 p2 p3 (r @ [q]) = r @ ys" for q
    using Suc.hyps(1) [OF n, of "r @ [q]"] by auto
  then show ?case
    using lt by (subst catmull_rom_segment.simps) (simp add: Let_def)
qed

lemma catmull_rom_segment_first:
  assumes "0 < pps" and "rd 0 = 0" and "rd 1 = 1" and "rd (fst p1) = fst p1" and "rd (snd p1) = snd p1"
  shows "\<exists>ys. catmull_rom_segment rd 0 pps p0 p1 p2 p3 r = r @ p1 # ys"
proof -
  obtain ys where "catmull_rom_segment rd (0 + 1) pps p0 p1 p2 p3 (r @ [p1]) = (r @ [p1]) @ ys"
    using catmull_rom_segment_prefix by blast
  then show ?thesis
    using assms by (subst catmull_rom_segment.simps) (simp add: Let_def)
qed

lemma catmull_rom_loop_length:
  "length (catmull_rom_loop rd i pps ws r) = length r + (length ws - 1 - i) * nat pps"
proof (induction "length ws - 1 - i" arbitrary: i r)
  case 0
  then have "\<not> i < length ws - 1"
    by linarith
  with 0 show ?case
    by (subst catmull_rom_loop.simps) simp
next
  case (Suc n)
  then have lt: "i < length ws - 1" and n: "n = length ws - 1 - (i + 1)"
    by linarith+
  have m: "length ws - 1 - i = Suc (length ws - 1 - (i + 1))"
    using lt by linarith
  have "length (catmull_rom_loop rd (i + 1) pps ws (catmull_rom_segment rd 0 pps p0 p1 p2 p3 r)) =
      length r + (length ws - 1 - i) * nat pps" for p0 p1 p2 p3
    unfolding Suc.hyps(1) [OF n] catmull_rom_segment_length m by simp
  then show ?case
    using lt by (subst catmull_rom_loop.simps) (simp only: Let_def if_True)
qed

lemma catmull_rom_loop_prefix:
  "\<exists>ys. catmull_rom_loop rd i pps ws r = r @ ys"
proof (induction "length ws - 1 - i" arbitrary: i r)
  case 0
  then have "\<not> i < length ws - 1"
    by linarith
  then show ?case
    by (subst catmull_rom_loop.simps) simp
next
  case (Suc n)
  then have lt: "i < length ws - 1" and n: "n = length ws - 1 - (i + 1)"
    by linarith+
  have "\<exists>ys. catmull_rom_loop rd (i + 1) pps ws (catmull_rom_segment rd 0 pps p0 p1 p2 p3 r) = r @ ys"
    for p0 p1 p2 p3
  proof -
    obtain ys where ys: "catmull_rom_segment rd 0 pps p0 p1 p2 p3 r = r @ ys"
      using catmull_rom_segment_prefix by blast
    obtain zs where "catmull_rom_loop rd (i + 1) pps ws (r @ ys) = (r @ ys) @ zs"
      using Suc.hyps(1) [OF n] by blast
    with ys show ?thesis
      by simp
  qed
  then show ?case
    using lt by (subst catmull_rom_loop.simps) (simp only: Let_def if_True)
qed

lemma catmull_rom_loop_first:
  assumes "0 < pps" "2 \<le> length ws"
    and "rd 0 = 0" and "rd 1 = 1" and "rd (fst (ws ! 0)) = fst (ws ! 0)" and "rd (snd (ws ! 0)) = snd (ws ! 0)"
  shows "\<exists>ys. catmull_rom_loop rd 0 pps ws [] = ws ! 0 # ys"
proof -
  have "\<exists>ys. catmull_rom_loop rd (0 + 1) pps ws (catmull_rom_segment rd 0 pps p0 (ws ! 0) p2 p3 []) = ws ! 0 # ys"
    for p0 p2 p3
  proof -
    obtain ys where ys: "catmull_rom_segment rd 0 pps p0 (ws ! 0) p2 p3 [] = [] @ ws ! 0 # ys"
      using catmull_rom_segment_first [OF assms(1) assms(3-6)] by blast
    obtain zs where "catmull_rom_loop rd (0 + 1) pps ws (ws ! 0 # ys) = (ws ! 0 # ys) @ zs"
      using catmull_rom_loop_prefix by blast
    with ys show ?thesis
      by simp
  qed
  moreover have "0 < length ws - 1"
    using assms(2) by linarith
  ultimately show ?thesis
    by (subst catmull_rom_loop.simps) (simp only: Let_def if_True)
qed

lemma bezier_segment_prefix:
  "\<exists>ys. bezier_segment rd j prev cur c1x c1y r = r @ ys"
proof (induction "nat (6 - j)" arbitrary: j r)
  case 0
  then have "\<not> j \<le> 5"
    by linarith
  then show ?case
    by (subst bezier_segment.simps) simp
next
  case (Suc n)
  then have lt: "j \<le> 5" and n: "n = nat (6 - (j + 1))"
    by linarith+
  have "\<exists>ys. bezier_segment rd (j + 1) prev cur c1x c1y (if c then r @ [q] else r) = r @ ys" for c q
    using Suc.hyps(1) [OF n, of "r @ [q]"] Suc.hyps(1) [OF n, of r] by auto
  then show ?case
    using lt by (subst bezier_segment.simps) (simp only: Let_def if_True)
qed

lemma bezier_loop_prefix:
  "\<exists>ys. bezier_loop rd i tension ws r = r @ ys"
proof (induction "length ws - 1 - i" arbitrary: i r)
  case 0
  then have "\<not> i < length ws - 1"
    by linarith
  then show ?case
    by (subst bezier_loop.simps) simp
next
  case (Suc n)
  then have lt: "i < length ws - 1" and n: "n = length ws - 1 - (i + 1)"
    by linarith+
  have "\<exists>ys. bezier_loop rd (i + 1) tension ws (bezier_segment rd 1 prev cur c1x c1y r) = r @ ys"
    for prev cur c1x c1y
  proof -
    obtain ys where ys: "bezier_segment rd 1 prev cur c1x c1y r = r @ ys"
      using bezier_segment_prefix by blast
    obtain zs where "bezier_loop rd (i + 1) tension ws (r @ ys) = (r @ ys) @ zs"
      using Suc.hyps(1) [OF n] by blast
    with ys show ?thesis
      by simp
  qed
  then show ?case
    using lt by (subst bezier_loop.simps) (simp only: Let_def if_True)
qed

lemma average_loop_length:
  "length (average_loop rd i hw ws r) = length r + (length ws - i)"
proof (induction "length ws - i" arbitrary: i r)
  case 0
  then have "\<not> i < length ws"
    by linarith
  with 0 show ?case
    by (subst average_loop.simps) simp
next
  case (Suc n)
  then have lt: "i < length ws" and n: "n = length ws - (i + 1)"
    by linarith+
  have "length (average_loop rd (i + 1) hw ws (r @ [q])) = length r + (length ws - i)" for q
    using Suc.hyps(1) [OF n, of "r @ [q]"] lt by simp
  then show ?case
    using lt by (subst average_loop.simps) (simp add: Let_def split: prod.splits)
qed

subsection \<open>Shape of the output of \<^verbatim>\<open>smooth_path\<close>\<close>

lemma smooth_path_two:
  "smooth_path rd [a, b] pps =
     map (\<lambda>k. (rd (fst a + rd (rd (of_int k / of_int pps) * rd (fst b - fst a))),
                rd (snd a + rd (rd (of_int k / of_int pps) * rd (snd b - snd a))))) [0..pps]"
  by (simp add: smooth_path_def lerp_loop_map)

lemma smooth_path_two_length:
  "0 \<le> pps \<Longrightarrow> length (smooth_path rd [a, b] pps) = nat pps + 1"
  by (simp add: smooth_path_two)

lemma smooth_path_two_hd:
  assumes "0 \<le> pps" and "rd 0 = 0" and "rd (fst a) = fst a" and "rd (snd a) = snd a"
  shows "hd (smooth_path rd [a, b] pps) = a"
  using assms by (simp add: smooth_path_two upto_rec1 [of 0 pps])

lemma smooth_path_two_last:
  assumes "1 \<le> pps"
  shows "last (smooth_path rd [a, b] pps) =
           (rd (fst a + rd (rd 1 * rd (fst b - fst a))), rd (snd a + rd (rd 1 * rd (snd b - snd a))))"
proof -
  have "[0..pps] = [0..pps - 1] @ [pps]"
    using assms by (simp add: upto_rec2)
  then show ?thesis
    using assms by (simp add: smooth_path_two)
qed



lemma smooth_path_many_length:
  "3 \<le> length ws \<Longrightarrow> length (smooth_path rd ws pps) = (length ws - 1) * nat pps + 1"
  by (simp add: smooth_path_def catmull_rom_loop_length)

lemma smooth_path_many_last:
  "3 \<le> length ws \<Longrightarrow> last (smooth_path rd ws pps) = last ws"
  by (simp add: smooth_path_def)

lemma smooth_path_many_hd:
  assumes "1 \<le> pps" "3 \<le> length ws"
    and "rd 0 = 0" and "rd 1 = 1" and "rd (fst (hd ws)) = fst (hd ws)" and "rd (snd (hd ws)) = snd (hd ws)"
  shows "hd (smooth_path rd ws pps) = hd ws"
proof -
  have ne: "ws \<noteq> []"
    using assms(2) by auto
  then have h: "hd ws = ws ! 0"
    by (simp add: hd_conv_nth)
  obtain ys where "catmull_rom_loop rd 0 pps ws [] = ws ! 0 # ys"
    using catmull_rom_loop_first [of pps ws rd] assms unfolding h by auto
  then show ?thesis
    using assms(2) h by (simp add: smooth_path_def)
qed

lemma on_segment_cross_product:
  fixes a b p :: point
  assumes "p = (fst a + t * (fst b - fst a), snd a + t * (snd b - snd a))"
  shows "(fst p - fst a) * (snd b - snd a) = (snd p - snd a) * (fst b - fst a)"
  unfolding assms by (simp add: mult_ac)



subsection \<open>The interpolated points in \<open>binary64\<close> arithmetic\<close>

text \<open>The doubles written \<^verbatim>\<open>0.7\<close>, \<^verbatim>\<open>0.1\<close>, \<^verbatim>\<open>0.3\<close>, and the roundings met below.\<close>

lemma binary64_7_10: "binary64 (7 / 10) = 3152519739159347 / 4503599627370496"
  by (subst binary64_eval [where e = "- 1"]) (simp_all add: power_int_minus round_even_def)

lemma binary64_1_10: "binary64 (1 / 10) = 3602879701896397 / 36028797018963968"
  by (subst binary64_eval [where e = "- 4"]) (simp_all add: power_int_minus round_even_def)



lemma binary64_difference:
  "binary64 (- (21617278211378379 / 36028797018963968)) = - (5404319552844595 / 9007199254740992)"
  by (subst binary64_eval [where e = "- 1"]) (simp_all add: power_int_minus round_even_def)

lemma binary64_difference_again:
  "binary64 (- (5404319552844595 / 9007199254740992)) = - (5404319552844595 / 9007199254740992)"
  by (subst binary64_eval [where e = "- 1"]) (simp_all add: power_int_minus round_even_def)

lemma binary64_sum:
  "binary64 (900719925474099 / 9007199254740992) = 900719925474099 / 9007199254740992"
  by (subst binary64_eval [where e = "- 4"]) (simp_all add: power_int_minus round_even_def)








subsection \<open>End points\<close>

text \<open>
  \<^verbatim>\<open>bezier_smooth\<close> and \<^verbatim>\<open>moving_average_smooth\<close> copy the first and the last waypoint
  into their output, and \<^verbatim>\<open>smooth_path\<close> copies the last waypoint when there are three
  or more: these end points are the input's whatever the rounding. The end points that
  \<^verbatim>\<open>smooth_path\<close> computes are the input's in exact arithmetic.
\<close>

lemma bezier_smooth_ends:
  assumes "ws \<noteq> []"
  shows "bezier_smooth rd ws tension \<noteq> [] \<and> hd (bezier_smooth rd ws tension) = hd ws \<and>
         last (bezier_smooth rd ws tension) = last ws"
proof (cases "length ws < 3")
  case True
  with assms show ?thesis
    by (simp add: bezier_smooth_def)
next
  case False
  obtain ys where "bezier_loop rd 1 tension ws [ws ! 0] = [ws ! 0] @ ys"
    using bezier_loop_prefix by blast
  with False assms show ?thesis
    by (simp add: bezier_smooth_def hd_conv_nth)
qed

lemma moving_average_smooth_ends:
  assumes "ws \<noteq> []"
  shows "moving_average_smooth rd ws window_size \<noteq> [] \<and>
         hd (moving_average_smooth rd ws window_size) = hd ws \<and>
         last (moving_average_smooth rd ws window_size) = last ws"
proof (cases "length ws < 3 \<or> window_size < 2")
  case True
  with assms show ?thesis
    by (simp add: moving_average_smooth_def)
next
  case False
  define r where "r = average_loop rd 0 (window_size div 2) ws []"
  have len: "length r = length ws"
    by (simp add: r_def average_loop_length)
  have eq: "moving_average_smooth rd ws window_size = r[0 := ws ! 0, length ws - 1 := last ws]"
    using False len by (simp add: moving_average_smooth_def Let_def r_def [symmetric])
  have n: "3 \<le> length ws"
    using False by simp
  define u where "u = r[0 := ws ! 0, length ws - 1 := last ws]"
  have ulen: "length u = length ws"
    by (simp add: u_def len)
  have ne: "u \<noteq> []"
    using ulen assms by auto
  have "0 < length r" "0 \<noteq> length ws - 1" "length ws - 1 < length r"
    using len n by linarith+
  then have "u ! 0 = ws ! 0" "u ! (length ws - 1) = last ws"
    by (simp_all add: u_def nth_list_update)
  then have "hd u = hd ws" "last u = last ws"
    using assms ulen by (simp_all add: hd_conv_nth [OF ne] last_conv_nth [OF ne] hd_conv_nth)
  then show ?thesis
    unfolding eq u_def [symmetric] using ne by simp
qed

lemma smooth_path_ends_copied:
  assumes "ws \<noteq> []" "length ws \<noteq> 2"
  shows "last (smooth_path rd ws pps) = last ws"
proof -
  have "0 < length ws"
    using assms(1) by simp
  then have "length ws = 1 \<or> 3 \<le> length ws"
    using assms(2) by linarith
  then show ?thesis
    by (auto simp: smooth_path_def)
qed

lemma smooth_path_exact_ends:
  assumes "1 \<le> pps" "ws \<noteq> []"
  shows "smooth_path exact ws pps \<noteq> [] \<and> hd (smooth_path exact ws pps) = hd ws \<and>
         last (smooth_path exact ws pps) = last ws"
proof -
  have "0 < length ws"
    using assms(2) by simp
  then consider "length ws = 1" | "length ws = 2" | "3 \<le> length ws"
    by linarith
  then show ?thesis
  proof cases
    case 1
    with assms(2) show ?thesis
      by (simp add: smooth_path_def)
  next
    case 2
    then obtain a b where ws: "ws = [a, b]"
      by (cases ws; cases "tl ws") auto
    have "length (smooth_path exact [a, b] pps) = nat pps + 1"
      using assms(1) by (simp add: smooth_path_two_length)
    then have "smooth_path exact [a, b] pps \<noteq> []"
      by auto
    then show ?thesis
      using assms(1) unfolding ws by (simp add: smooth_path_two_hd smooth_path_two_last)
  next
    case 3
    have "length (smooth_path exact ws pps) = (length ws - 1) * nat pps + 1"
      using 3 by (rule smooth_path_many_length)
    then have "smooth_path exact ws pps \<noteq> []"
      by auto
    then show ?thesis
      using assms(1) 3 by (simp add: smooth_path_many_hd smooth_path_many_last)
  qed
qed

text \<open>
  C3. The last point that \<^verbatim>\<open>smooth_path\<close> returns for two waypoints \<open>a\<close>, \<open>b\<close> is computed as
  \<open>a + 1 (b - a)\<close>. In \<open>binary64\<close> arithmetic, with the default \<open>points_per_segment = 10\<close>
  and the waypoints \<open>(0.7, 0)\<close> and \<open>(0.1, 0)\<close>, it is \<open>(0.09999999999999998, 0)\<close>, which is
  not the last waypoint \<open>(0.1, 0)\<close>.
\<close>

theorem smooth_path_two_waypoints_last_rounded:
  "last (smooth_path binary64 [(binary64 (7 / 10), 0), (binary64 (1 / 10), 0)] 10) =
     (900719925474099 / 9007199254740992, 0) \<and>
   last [(binary64 (7 / 10), 0), (binary64 (1 / 10), 0 :: real)] =
     (3602879701896397 / 36028797018963968, 0) \<and>
   last (smooth_path binary64 [(binary64 (7 / 10), 0), (binary64 (1 / 10), 0)] 10) \<noteq>
     last [(binary64 (7 / 10), 0), (binary64 (1 / 10), 0)]"
  by (simp add: smooth_path_two_last binary64_7_10 binary64_1_10 binary64_difference
      binary64_difference_again binary64_sum)

subsection \<open>\<^verbatim>\<open>is_sharp_turn\<close>\<close>

lemma is_sharp_turn_degenerate:
  assumes "rd 0 = 0" "0 < rd (1 / 10 ^ 9)" "p1 = p2 \<or> p2 = p3"
  shows "\<not> is_sharp_turn rd p1 p2 p3 threshold"
  using assms by (auto simp: is_sharp_turn_def Let_def)

lemma is_sharp_turn_exact:
  "is_sharp_turn exact p1 p2 p3 threshold \<longleftrightarrow>
     (let v1x = fst p2 - fst p1; v1y = snd p2 - snd p1;
          v2x = fst p3 - fst p2; v2y = snd p3 - snd p2;
          len1 = sqrt (v1x\<^sup>2 + v1y\<^sup>2); len2 = sqrt (v2x\<^sup>2 + v2y\<^sup>2)
      in 1 / 10 ^ 9 \<le> len1 \<and> 1 / 10 ^ 9 \<le> len2 \<and>
         arccos (max (- 1) (min 1 ((v1x * v2x + v1y * v2y) / (len1 * len2)))) > threshold)"
  by (auto simp: is_sharp_turn_def Let_def power2_eq_square add_divide_distrib not_less)

lemma is_sharp_turn_colinear:
  fixes p1 p2 p3 :: point
  assumes k: "0 < k" and x: "fst p3 - fst p2 = k * (fst p2 - fst p1)"
    and y: "snd p3 - snd p2 = k * (snd p2 - snd p1)" and th: "0 \<le> threshold"
  shows "\<not> is_sharp_turn exact p1 p2 p3 threshold"
proof -
  define a where "a = fst p2 - fst p1"
  define b where "b = snd p2 - snd p1"
  define L where "L = sqrt (a\<^sup>2 + b\<^sup>2)"
  have len2: "sqrt ((k * a)\<^sup>2 + (k * b)\<^sup>2) = k * L"
  proof -
    have "(k * a)\<^sup>2 + (k * b)\<^sup>2 = k\<^sup>2 * (a\<^sup>2 + b\<^sup>2)"
      by (simp add: power_mult_distrib distrib_left)
    then show ?thesis
      using k by (simp add: L_def real_sqrt_mult)
  qed
  show ?thesis
  proof (cases "1 / 10 ^ 9 \<le> L \<and> 1 / 10 ^ 9 \<le> k * L")
    case False
    then show ?thesis
      unfolding is_sharp_turn_exact Let_def x y a_def [symmetric] b_def [symmetric] len2
        L_def [symmetric] by auto
  next
    case True
    moreover have "(0::real) < 1 / 10 ^ 9"
      by simp
    ultimately have Lpos: "0 < L"
      by linarith
    have sq: "a\<^sup>2 + b\<^sup>2 = L\<^sup>2"
      by (simp add: L_def)
    have "(a * (k * a) + b * (k * b)) / (L * (k * L)) = k * (a\<^sup>2 + b\<^sup>2) / (k * L\<^sup>2)"
      by (simp add: power2_eq_square algebra_simps)
    also have "\<dots> = 1"
      using k Lpos unfolding sq by simp
    finally have dot: "(a * (k * a) + b * (k * b)) / (L * (k * L)) = 1" .
    show ?thesis
      unfolding is_sharp_turn_exact Let_def x y a_def [symmetric] b_def [symmetric] len2
        L_def [symmetric] dot using th by simp
  qed
qed

lemma is_sharp_turn_reversal:
  fixes p1 p2 p3 :: point
  assumes k: "k < 0" and x: "fst p3 - fst p2 = k * (fst p2 - fst p1)"
    and y: "snd p3 - snd p2 = k * (snd p2 - snd p1)" and th: "threshold < pi"
    and l1: "1 / 10 ^ 9 \<le> sqrt ((fst p2 - fst p1)\<^sup>2 + (snd p2 - snd p1)\<^sup>2)"
    and l2: "1 / 10 ^ 9 \<le> sqrt ((fst p3 - fst p2)\<^sup>2 + (snd p3 - snd p2)\<^sup>2)"
  shows "is_sharp_turn exact p1 p2 p3 threshold"
proof -
  define a where "a = fst p2 - fst p1"
  define b where "b = snd p2 - snd p1"
  define L where "L = sqrt (a\<^sup>2 + b\<^sup>2)"
  have len2: "sqrt ((k * a)\<^sup>2 + (k * b)\<^sup>2) = - k * L"
  proof -
    have "(k * a)\<^sup>2 + (k * b)\<^sup>2 = (- k)\<^sup>2 * (a\<^sup>2 + b\<^sup>2)"
      by (simp add: power_mult_distrib distrib_left)
    then show ?thesis
      using k by (simp add: L_def real_sqrt_mult)
  qed
  have L1: "1 / 10 ^ 9 \<le> L"
    using l1 by (simp add: L_def a_def b_def)
  have L2: "1 / 10 ^ 9 \<le> - k * L"
    using l2 unfolding x y a_def [symmetric] b_def [symmetric] len2 .
  have "(0::real) < 1 / 10 ^ 9"
    by simp
  with L1 have Lpos: "0 < L"
    by linarith
  have sq: "a\<^sup>2 + b\<^sup>2 = L\<^sup>2"
    by (simp add: L_def)
  have "(a * (k * a) + b * (k * b)) / (L * (- k * L)) = k * (a\<^sup>2 + b\<^sup>2) / (- k * L\<^sup>2)"
    by (simp add: power2_eq_square algebra_simps)
  also have "\<dots> = - 1"
    using k Lpos unfolding sq by (simp add: field_simps)
  finally have dot: "(a * (k * a) + b * (k * b)) / (L * (- k * L)) = - 1" .
  show ?thesis
    unfolding is_sharp_turn_exact Let_def x y a_def [symmetric] b_def [symmetric] len2
      L_def [symmetric] dot using th L1 L2 by simp
qed

text \<open>
  C9, as the code has it. \<^verbatim>\<open>is_sharp_turn\<close> returns false when \<open>p1 = p2\<close> or \<open>p2 = p3\<close>
  (for any rounding that keeps \<open>0\<close> and sends \<open>1e-9\<close> to a positive number). In exact
  arithmetic it returns true exactly when both direction vectors have length at least
  \<open>1e-9\<close> and the angle \<open>arccos (clamp (dot, -1, 1))\<close> between the normalised directions
  exceeds the threshold; hence, in exact arithmetic, false for colinear forward points
  when the threshold is not negative, and true for a full reversal (of two vectors
  of length at least \<open>1e-9\<close>) when the threshold is below \<open>\<pi>\<close>.
\<close>

theorem is_sharp_turn_characterisation:
  fixes p1 p2 p3 :: point
  shows
  "(rd 0 = 0 \<and> 0 < rd (1 / 10 ^ 9) \<and> (p1 = p2 \<or> p2 = p3) \<longrightarrow>
      \<not> is_sharp_turn rd p1 p2 p3 threshold) \<and>
   (is_sharp_turn exact p1 p2 p3 threshold \<longleftrightarrow>
      (let v1x = fst p2 - fst p1; v1y = snd p2 - snd p1;
           v2x = fst p3 - fst p2; v2y = snd p3 - snd p2;
           len1 = sqrt (v1x\<^sup>2 + v1y\<^sup>2); len2 = sqrt (v2x\<^sup>2 + v2y\<^sup>2)
       in 1 / 10 ^ 9 \<le> len1 \<and> 1 / 10 ^ 9 \<le> len2 \<and>
          arccos (max (- 1) (min 1 ((v1x * v2x + v1y * v2y) / (len1 * len2)))) > threshold)) \<and>
   (0 < k \<and> fst p3 - fst p2 = k * (fst p2 - fst p1) \<and> snd p3 - snd p2 = k * (snd p2 - snd p1) \<and>
    0 \<le> threshold \<longrightarrow>
      \<not> is_sharp_turn exact p1 p2 p3 threshold) \<and>
   (k < 0 \<and> fst p3 - fst p2 = k * (fst p2 - fst p1) \<and> snd p3 - snd p2 = k * (snd p2 - snd p1) \<and>
    1 / 10 ^ 9 \<le> sqrt ((fst p2 - fst p1)\<^sup>2 + (snd p2 - snd p1)\<^sup>2) \<and>
    1 / 10 ^ 9 \<le> sqrt ((fst p3 - fst p2)\<^sup>2 + (snd p3 - snd p2)\<^sup>2) \<and>
    threshold < pi \<longrightarrow>
      is_sharp_turn exact p1 p2 p3 threshold)"
proof (intro conjI impI)
  show "\<not> is_sharp_turn rd p1 p2 p3 threshold"
    if "rd 0 = 0 \<and> 0 < rd (1 / 10 ^ 9) \<and> (p1 = p2 \<or> p2 = p3)"
    using that is_sharp_turn_degenerate [of rd p1 p2 p3 threshold] by blast
  show "is_sharp_turn exact p1 p2 p3 threshold \<longleftrightarrow>
      (let v1x = fst p2 - fst p1; v1y = snd p2 - snd p1;
           v2x = fst p3 - fst p2; v2y = snd p3 - snd p2;
           len1 = sqrt (v1x\<^sup>2 + v1y\<^sup>2); len2 = sqrt (v2x\<^sup>2 + v2y\<^sup>2)
       in 1 / 10 ^ 9 \<le> len1 \<and> 1 / 10 ^ 9 \<le> len2 \<and>
          arccos (max (- 1) (min 1 ((v1x * v2x + v1y * v2y) / (len1 * len2)))) > threshold)"
    by (rule is_sharp_turn_exact)
  show "\<not> is_sharp_turn exact p1 p2 p3 threshold"
    if "0 < k \<and> fst p3 - fst p2 = k * (fst p2 - fst p1) \<and>
        snd p3 - snd p2 = k * (snd p2 - snd p1) \<and> 0 \<le> threshold"
    using that is_sharp_turn_colinear [of k p3 p2 p1 threshold] by blast
  show "is_sharp_turn exact p1 p2 p3 threshold"
    if "k < 0 \<and> fst p3 - fst p2 = k * (fst p2 - fst p1) \<and>
        snd p3 - snd p2 = k * (snd p2 - snd p1) \<and>
        1 / 10 ^ 9 \<le> sqrt ((fst p2 - fst p1)\<^sup>2 + (snd p2 - snd p1)\<^sup>2) \<and>
        1 / 10 ^ 9 \<le> sqrt ((fst p3 - fst p2)\<^sup>2 + (snd p3 - snd p2)\<^sup>2) \<and>
        threshold < pi"
    using that is_sharp_turn_reversal [of k p3 p2 p1 threshold] by blast
qed

theorem is_sharp_turn_characterisation_witness:
  "binary64 0 = 0 \<and> 0 < binary64 (1 / 10 ^ 9) \<and>
   \<not> is_sharp_turn binary64 (1, 2) (1, 2) (3, 4) (pi / 4) \<and>
   \<not> is_sharp_turn exact (0, 0) (1, 1) (3, 3) 0 \<and>
   is_sharp_turn exact (0, 0) (1, 1) (0, 0) (pi / 4) \<and>
   is_sharp_turn exact (0, 0) (1, 0) (1, 1) (pi / 4)"
proof -
  have e: "0 < binary64 (1 / 10 ^ 9)"
    by (rule binary64_pos) simp
  have "\<not> is_sharp_turn binary64 (1, 2) (1, 2) (3, 4) (pi / 4)"
    using is_sharp_turn_characterisation [of binary64 "(1, 2)" "(1, 2)" "(3, 4)" "pi / 4" 1,
        THEN conjunct1] e
    by simp
  moreover have "\<not> is_sharp_turn exact (0, 0) (1, 1) (3, 3) 0"
    using is_sharp_turn_characterisation [of exact "(0, 0)" "(1, 1)" "(3, 3)" 0 2,
        THEN conjunct2, THEN conjunct2, THEN conjunct1]
    by simp
  moreover have "1 \<le> sqrt 2 * 1000000000"
  proof -
    have "1 \<le> sqrt 2"
      by simp
    then show ?thesis
      by linarith
  qed
  then have "is_sharp_turn exact (0, 0) (1, 1) (0, 0) (pi / 4)"
    using is_sharp_turn_characterisation [of exact "(0, 0)" "(1, 1)" "(0, 0)" "pi / 4" "- 1",
        THEN conjunct2, THEN conjunct2, THEN conjunct2]
    by simp
  moreover have "is_sharp_turn exact (0, 0) (1, 0) (1, 1) (pi / 4)"
    using is_sharp_turn_characterisation [of exact "(0, 0)" "(1, 0)" "(1, 1)" "pi / 4" 1,
        THEN conjunct2, THEN conjunct1]
    by (simp add: Let_def)
  ultimately show ?thesis
    using e by simp
qed

text \<open>
  Against C9 as the specification states it ("false for colinear forward points").
  In \<open>binary64\<close> arithmetic the angle computed for the colinear forward points \<open>(0, 0)\<close>,
  \<open>(1, 1)\<close>, \<open>(2, 2)\<close> is not \<open>0\<close>: the normalised direction \<open>(1, 1) / sqrt 2\<close> rounds to a
  vector whose rounded dot product with itself is \<open>1 - 2\<^sup>-\<^sup>5\<^sup>2\<close>, the arc cosine of which is
  positive. With the threshold \<open>0\<close> the function returns true.
\<close>

lemma binary64_1e_9:
  "binary64 (1 / 1000000000) = 4835703278458517 / 4835703278458516698824704"
  by (subst binary64_eval [where e = "- 30"]) (simp_all add: power_int_minus round_even_def)

lemma binary64_inverse_sqrt_2:
  "binary64 (4503599627370496 / 6369051672525773) = 1592262918131443 / 2251799813685248"
  by (subst binary64_eval [where e = "- 1"]) (simp_all add: power_int_minus round_even_def)

lemma binary64_square:
  "binary64 (2535301200456458353478625262249 / 5070602400912917605986812821504) =
     4503599627370495 / 9007199254740992"
  by (subst binary64_eval [where e = "- 2"]) (simp_all add: power_int_minus round_even_def)

lemma binary64_dot:
  "binary64 (4503599627370495 / 4503599627370496) = 4503599627370495 / 4503599627370496"
  by (subst binary64_eval [where e = "- 1"]) (simp_all add: power_int_minus round_even_def)

lemma binary64_angle_positive:
  "0 < binary64 (arccos (4503599627370495 / 4503599627370496))"
proof -
  have "0 < arccos (4503599627370495 / 4503599627370496)"
    using arccos_lt_bounded [of "4503599627370495 / 4503599627370496"] by simp
  then show ?thesis
    by (rule binary64_pos)
qed

theorem is_sharp_turn_colinear_rounded:
  "is_sharp_turn binary64 (0, 0) (1, 1) (2, 2) 0"
  by (simp add: is_sharp_turn_def Let_def binary64_sqrt_2 binary64_1e_9 binary64_inverse_sqrt_2
      binary64_square binary64_dot binary64_angle_positive)

subsection \<open>\<^verbatim>\<open>path_length\<close> and \<^verbatim>\<open>resample_path\<close>\<close>

lemma euclid_eq: "euclid p q = sqrt ((fst q - fst p)\<^sup>2 + (snd q - snd p)\<^sup>2)"
  by (simp add: euclid_def distance_def Let_def power2_eq_square)

lemma euclid_nonneg [simp]: "0 \<le> euclid p q"
  by (simp add: euclid_eq)

lemma euclid_self [simp]: "euclid p p = 0"
  by (simp add: euclid_eq)















section \<open>Properties of the robot HAL\<close>

subsection \<open>Command gating by the motor-timeout fault\<close>

lemma publish_blocked:
  "fault_state k = MOTOR_TIMEOUT \<Longrightarrow>
   publish_cmd_vel has_ros2 drop_dist linear_x angular_z k = (False, k, [Log_motor_timeout])"
  by (simp add: publish_cmd_vel_def)

lemma publish_each_blocked:
  "fault_state k = MOTOR_TIMEOUT \<Longrightarrow>
   publish_each has_ros2 drop_dist cmds k =
     (replicate (length cmds) False, k, replicate (length cmds) Log_motor_timeout)"
  by (induction cmds) (auto simp: publish_blocked)

lemma publish_forwarded:
  "fault_state k = NONE \<Longrightarrow> has_ros2 \<longrightarrow> cmd_vel_pub k \<Longrightarrow>
   publish_cmd_vel has_ros2 drop_dist linear_x angular_z k =
     (True, k, [if has_ros2 then Publish_twist linear_x angular_z
                else Log_cmd_vel (robot_id k) linear_x angular_z])"
  by (simp add: publish_cmd_vel_def)

text \<open>
  C2. After \<^verbatim>\<open>inject_fault("motor_timeout")\<close> every \<^verbatim>\<open>publish_cmd_vel\<close>, with any arguments,
  returns false, hands no command to the transport (the only output is the diagnostic
  line) and leaves the state as it is; so does \<^verbatim>\<open>stop\<close>, and so does each call of a
  sequence of calls. After \<^verbatim>\<open>clear_faults\<close> the fault is \<open>NONE\<close>, the status is back to
  \<open>IDLE\<close>, and the same call returns true and forwards the command. In general
  \<^verbatim>\<open>clear_faults\<close> turns the status \<open>FAULT\<close> into \<open>IDLE\<close> and leaves any other status alone.
  In the ROS 2 build the publisher must exist, as it does after construction.
\<close>

theorem motor_timeout_blocks_until_cleared:
  assumes "has_ros2 \<longrightarrow> cmd_vel_pub h"
  shows "let h1 = fst (inject_fault ''motor_timeout'' h); h2 = fst (clear_faults h1) in
     fault_state h1 = MOTOR_TIMEOUT \<and>
     publish_cmd_vel has_ros2 drop_dist linear_x angular_z h1 = (False, h1, [Log_motor_timeout]) \<and>
     stop has_ros2 drop_dist h1 = (h1, [Log_motor_timeout]) \<and>
     publish_each has_ros2 drop_dist cmds h1 =
       (replicate (length cmds) False, h1, replicate (length cmds) Log_motor_timeout) \<and>
     fault_state h2 = NONE \<and> status h2 = IDLE \<and>
     publish_cmd_vel has_ros2 drop_dist linear_x angular_z h2 =
       (True, h2, [if has_ros2 then Publish_twist linear_x angular_z
                   else Log_cmd_vel (robot_id h) linear_x angular_z]) \<and>
     (status k = FAULT \<longrightarrow> status (fst (clear_faults k)) = IDLE) \<and>
     (status k \<noteq> FAULT \<longrightarrow> status (fst (clear_faults k)) = status k)"
proof -
  define h1 where "h1 = fst (inject_fault ''motor_timeout'' h)"
  define h2 where "h2 = fst (clear_faults h1)"
  have f1: "fault_state h1 = MOTOR_TIMEOUT" and s1: "status h1 = FAULT"
    and p1: "cmd_vel_pub h1 = cmd_vel_pub h" and r1: "robot_id h1 = robot_id h"
    by (simp_all add: h1_def inject_fault_def)
  have f2: "fault_state h2 = NONE" and s2: "status h2 = IDLE"
    and p2: "cmd_vel_pub h2 = cmd_vel_pub h" and r2: "robot_id h2 = robot_id h"
    using s1 p1 r1 by (simp_all add: h2_def clear_faults_def Let_def)
  have "stop has_ros2 drop_dist h1 = (h1, [Log_motor_timeout])"
    by (simp add: stop_def publish_blocked [OF f1])
  moreover have "publish_cmd_vel has_ros2 drop_dist linear_x angular_z h2 =
       (True, h2, [if has_ros2 then Publish_twist linear_x angular_z
                   else Log_cmd_vel (robot_id h) linear_x angular_z])"
    using publish_forwarded [OF f2, of has_ros2 drop_dist linear_x angular_z] assms p2 r2 by simp
  moreover have "status k = FAULT \<longrightarrow> status (fst (clear_faults k)) = IDLE"
    and "status k \<noteq> FAULT \<longrightarrow> status (fst (clear_faults k)) = status k"
    by (simp_all add: clear_faults_def Let_def)
  ultimately show ?thesis
    using f1 f2 s2 publish_blocked [OF f1] publish_each_blocked [OF f1]
    unfolding Let_def h1_def [symmetric] h2_def [symmetric] by simp
qed

theorem motor_timeout_blocks_until_cleared_witness:
  "(let h = RobotHAL_new False ''robot_1'' (0::nat);
       h1 = fst (inject_fault ''motor_timeout'' h);
       h2 = fst (clear_faults h1)
   in (False \<longrightarrow> cmd_vel_pub h) \<and>
      publish_cmd_vel False (\<lambda>g. (0, Suc g)) 1 0 h1 = (False, h1, [Log_motor_timeout]) \<and>
      stop False (\<lambda>g. (0, Suc g)) h1 = (h1, [Log_motor_timeout]) \<and>
      status h2 = IDLE \<and>
      publish_cmd_vel False (\<lambda>g. (0, Suc g)) 1 0 h2 = (True, h2, [Log_cmd_vel ''robot_1'' 1 0]))"
  using motor_timeout_blocks_until_cleared [of False "RobotHAL_new False ''robot_1'' (0::nat)"
      "\<lambda>g. (0, Suc g)" 1 0 "[]" "RobotHAL_new False ''robot_1'' (0::nat)"]
  by (simp add: Let_def RobotHAL_new_def)

subsection \<open>Fault identifiers\<close>

text \<open>
  C6, as the code has it. \<^verbatim>\<open>inject_fault\<close> recognises each of the three identifiers in
  two spellings, all small letters or all capital letters: \<open>motor_timeout\<close> sets the fault
  \<open>MOTOR_TIMEOUT\<close> and the status \<open>FAULT\<close>; \<open>packet_drop\<close> and \<open>sensor_freeze\<close> set their fault
  and leave the status. Every other string, a mixed-case spelling included, leaves the
  whole state unchanged and prints the unknown-fault diagnostic.
\<close>

theorem inject_fault_accepted_spellings:
  "(s = ''motor_timeout'' \<or> s = ''MOTOR_TIMEOUT'' \<longrightarrow>
      fst (inject_fault s h) = h\<lparr>fault_state := MOTOR_TIMEOUT, status := FAULT\<rparr>) \<and>
   (s = ''packet_drop'' \<or> s = ''PACKET_DROP'' \<longrightarrow>
      fst (inject_fault s h) = h\<lparr>fault_state := PACKET_DROP\<rparr>) \<and>
   (s = ''sensor_freeze'' \<or> s = ''SENSOR_FREEZE'' \<longrightarrow>
      fst (inject_fault s h) = h\<lparr>fault_state := SENSOR_FREEZE\<rparr>) \<and>
   (s \<notin> {''motor_timeout'', ''MOTOR_TIMEOUT'', ''packet_drop'', ''PACKET_DROP'',
          ''sensor_freeze'', ''SENSOR_FREEZE''} \<longrightarrow>
      fst (inject_fault s h) = h \<and>
      snd (inject_fault s h) = [Log_injecting s (robot_id h), Log_unknown_fault s])"
  by (auto simp: inject_fault_def)

theorem inject_fault_accepted_spellings_witness:
  "fault_state (fst (inject_fault ''MOTOR_TIMEOUT'' (RobotHAL_new False ''robot_1'' ()))) = MOTOR_TIMEOUT \<and>
   status (fst (inject_fault ''MOTOR_TIMEOUT'' (RobotHAL_new False ''robot_1'' ()))) = FAULT \<and>
   fault_state (fst (inject_fault ''packet_drop'' (RobotHAL_new False ''robot_1'' ()))) = PACKET_DROP \<and>
   status (fst (inject_fault ''packet_drop'' (RobotHAL_new False ''robot_1'' ()))) = IDLE \<and>
   fault_state (fst (inject_fault ''SENSOR_FREEZE'' (RobotHAL_new False ''robot_1'' ()))) = SENSOR_FREEZE \<and>
   fst (inject_fault ''Packet_Drop'' (RobotHAL_new False ''robot_1'' ())) = RobotHAL_new False ''robot_1'' ()"
  using inject_fault_accepted_spellings [of "''MOTOR_TIMEOUT''" "RobotHAL_new False ''robot_1'' ()"]
    inject_fault_accepted_spellings [of "''packet_drop''" "RobotHAL_new False ''robot_1'' ()"]
    inject_fault_accepted_spellings [of "''SENSOR_FREEZE''" "RobotHAL_new False ''robot_1'' ()"]
    inject_fault_accepted_spellings [of "''Packet_Drop''" "RobotHAL_new False ''robot_1'' ()"]
  by (simp add: RobotHAL_new_def)

text \<open>
  Against C6 as the specification states it (any mix of upper and lower case).
  The identifier \<open>Motor_Timeout\<close> equals \<open>motor_timeout\<close> when case is ignored, yet
  injecting it into a fresh HAL leaves the fault at \<open>NONE\<close> and the status at \<open>IDLE\<close>.
\<close>

theorem inject_fault_mixed_case_counterexample:
  "equals_ignoring_case ''Motor_Timeout'' ''motor_timeout'' \<and>
   fault_state (fst (inject_fault ''Motor_Timeout'' (RobotHAL_new False ''robot_1'' ()))) = NONE \<and>
   status (fst (inject_fault ''Motor_Timeout'' (RobotHAL_new False ''robot_1'' ()))) = IDLE"
proof -
  have "equals_ignoring_case ''Motor_Timeout'' ''motor_timeout''"
    by code_simp
  then show ?thesis
    by (simp add: inject_fault_def RobotHAL_new_def)
qed

end
